theory Spec2Isabelle
  imports Main "HOL-Library.Sublist"
begin

section \<open>JSON values and the Python operations the agent applies to them\<close>

text \<open>
  The registry's payload, the arguments chosen by the language model and the summaries
  returned by the Registry Client are all values produced by \<^verbatim>\<open>json.loads\<close> or
  consumed by \<^verbatim>\<open>json.dumps\<close>. Numbers are integers here; an object is an
  association list in insertion order holding each key once, as a Python dict does.
\<close>

datatype json =
    JNull
  | JBool bool
  | JNum int
  | JStr string
  | JArr "json list"
  | JObj "(string \<times> json) list"

text \<open>The exceptions that can leave the functions of \<^verbatim>\<open>agent.py\<close>.\<close>

datatype pyerror =
    KeyError string
  | TypeError
  | AttributeError
  | JSONDecodeError
  | RequestException
  | APIError

type_synonym 'a result = "pyerror + 'a"

definition bindE :: "'a result \<Rightarrow> ('a \<Rightarrow> 'b result) \<Rightarrow> 'b result" where
  "bindE m f = (case m of Inl e \<Rightarrow> Inl e | Inr x \<Rightarrow> f x)"

text \<open>A loop body run over a list: the first exception ends the loop.\<close>

fun mapE :: "('a \<Rightarrow> 'b result) \<Rightarrow> 'a list \<Rightarrow> 'b list result" where
  "mapE f [] = Inr []"
| "mapE f (x # xs) =
     (case f x of
        Inl e \<Rightarrow> Inl e
      | Inr y \<Rightarrow> (case mapE f xs of Inl e \<Rightarrow> Inl e | Inr ys \<Rightarrow> Inr (y # ys)))"

fun foldE :: "('s \<Rightarrow> 'a \<Rightarrow> 's result) \<Rightarrow> 's \<Rightarrow> 'a list \<Rightarrow> 's result" where
  "foldE f s [] = Inr s"
| "foldE f s (x # xs) = (case f s x of Inl e \<Rightarrow> Inl e | Inr s' \<Rightarrow> foldE f s' xs)"

text \<open>\<^verbatim>\<open>d.get(k, default)\<close>: only a dict has the method.\<close>

fun dict_get :: "json \<Rightarrow> string \<Rightarrow> json \<Rightarrow> json result" where
  "dict_get (JObj kvs) k d = Inr (case map_of kvs k of None \<Rightarrow> d | Some v \<Rightarrow> v)"
| "dict_get _ k d = Inl AttributeError"

text \<open>\<^verbatim>\<open>d[k]\<close> with a string key: KeyError on a dict without the key, TypeError on
  every other value.\<close>

fun getitem :: "json \<Rightarrow> string \<Rightarrow> json result" where
  "getitem (JObj kvs) k = (case map_of kvs k of None \<Rightarrow> Inl (KeyError k) | Some v \<Rightarrow> Inr v)"
| "getitem _ k = Inl TypeError"

fun py_len :: "json \<Rightarrow> nat result" where
  "py_len (JArr xs) = Inr (length xs)"
| "py_len (JStr s) = Inr (length s)"
| "py_len (JObj kvs) = Inr (length kvs)"
| "py_len _ = Inl TypeError"

text \<open>\<^verbatim>\<open>x[:n]\<close>: lists and strings can be sliced.\<close>

fun py_slice :: "nat \<Rightarrow> json \<Rightarrow> json result" where
  "py_slice n (JArr xs) = Inr (JArr (take n xs))"
| "py_slice n (JStr s) = Inr (JStr (take n s))"
| "py_slice n _ = Inl TypeError"

text \<open>The items a \<^verbatim>\<open>for\<close> loop visits: the elements of a list, the characters of a
  string, the keys of a dict.\<close>

fun py_iter :: "json \<Rightarrow> json list result" where
  "py_iter (JArr xs) = Inr xs"
| "py_iter (JStr s) = Inr (map (\<lambda>c. JStr [c]) s)"
| "py_iter (JObj kvs) = Inr (map (\<lambda>kv. JStr (fst kv)) kvs)"
| "py_iter _ = Inl TypeError"

fun truthy :: "json \<Rightarrow> bool" where
  "truthy JNull = False"
| "truthy (JBool b) = b"
| "truthy (JNum n) = (n \<noteq> 0)"
| "truthy (JStr s) = (s \<noteq> [])"
| "truthy (JArr xs) = (xs \<noteq> [])"
| "truthy (JObj kvs) = (kvs \<noteq> [])"

lemma size_json_member:
  "map_of a k = Some v \<Longrightarrow> size v \<le> size_list (size_prod (\<lambda>x. 0) size) a"
  by (induction a) (auto split: if_splits)

text \<open>Python's \<^verbatim>\<open>==\<close>: \<^verbatim>\<open>True == 1\<close> and \<^verbatim>\<open>False == 0\<close>, lists are compared
  element by element, dicts key by key whatever the insertion order.\<close>

function (sequential) py_eq :: "json \<Rightarrow> json \<Rightarrow> bool" where
  "py_eq JNull JNull = True"
| "py_eq (JBool a) (JBool b) = (a = b)"
| "py_eq (JBool a) (JNum n) = (n = (if a then 1 else 0))"
| "py_eq (JNum n) (JBool a) = (n = (if a then 1 else 0))"
| "py_eq (JNum m) (JNum n) = (m = n)"
| "py_eq (JStr s) (JStr t) = (s = t)"
| "py_eq (JArr xs) (JArr ys) = list_all2 py_eq xs ys"
| "py_eq (JObj a) (JObj b) =
     (list_all (\<lambda>k. k \<in> set (map fst a)) (map fst b) \<and>
      list_all (\<lambda>k. case map_of a k of None \<Rightarrow> False
                     | Some v \<Rightarrow> (case map_of b k of None \<Rightarrow> False | Some w \<Rightarrow> py_eq v w))
        (map fst a))"
| "py_eq _ _ = False"
  by pat_completeness auto
termination
  by (relation "measure (\<lambda>(x, y). size x)")
     (auto simp: size_json_member less_Suc_eq_le size_list_estimation')

text \<open>\<^verbatim>\<open>k in x\<close> for a string \<open>k\<close>: key membership on a dict, substring test on a
  string, element membership on a list.\<close>

fun starts_with :: "string \<Rightarrow> string \<Rightarrow> bool" where
  "starts_with [] s = True"
| "starts_with (c # k) [] = False"
| "starts_with (c # k) (d # s) = (c = d \<and> starts_with k s)"

fun is_substring :: "string \<Rightarrow> string \<Rightarrow> bool" where
  "is_substring k [] = (k = [])"
| "is_substring k (c # s) = (starts_with k (c # s) \<or> is_substring k s)"

fun py_in :: "string \<Rightarrow> json \<Rightarrow> bool result" where
  "py_in k (JObj kvs) = Inr (k \<in> set (map fst kvs))"
| "py_in k (JStr s) = Inr (is_substring k s)"
| "py_in k (JArr xs) = Inr (list_ex (\<lambda>x. py_eq x (JStr k)) xs)"
| "py_in k _ = Inl TypeError"

text \<open>\<^verbatim>\<open>str.lower()\<close> on code points below 256: the letters A-Z and the upper-case
  letters of Latin-1 move up by 32.\<close>

definition is_upper :: "char \<Rightarrow> bool" where
  "is_upper c = (let n = (of_char c :: nat)
                 in (65 \<le> n \<and> n \<le> 90) \<or> (192 \<le> n \<and> n \<le> 222 \<and> n \<noteq> 215))"

definition lower_char :: "char \<Rightarrow> char" where
  "lower_char c = (if is_upper c then char_of ((of_char c :: nat) + 32) else c)"

fun py_lower :: "json \<Rightarrow> string result" where
  "py_lower (JStr s) = Inr (map lower_char s)"
| "py_lower _ = Inl AttributeError"

text \<open>\<^verbatim>\<open>str(n)\<close> for an integer, as an f-string renders it.\<close>

definition digit :: "nat \<Rightarrow> char" where
  "digit d = ''0123456789'' ! d"

fun show_nat :: "nat \<Rightarrow> string" where
  "show_nat n = (if n < 10 then [digit n] else show_nat (n div 10) @ [digit (n mod 10)])"

declare show_nat.simps [simp del]

definition show_int :: "int \<Rightarrow> string" where
  "show_int i = (if i < 0 then CHR ''-'' # show_nat (nat (- i)) else show_nat (nat i))"


section \<open>The world the agent talks to\<close>

text \<open>
  A tool invocation of the model's response (\<^verbatim>\<open>tool_call.id\<close>,
  \<^verbatim>\<open>tool_call.function.name\<close>, \<^verbatim>\<open>tool_call.function.arguments\<close>), the message
  of a completion (\<^verbatim>\<open>response.choices[0].message\<close>), the Conversation's messages, and
  the keyword arguments of \<^verbatim>\<open>client.chat.completions.create\<close>.
\<close>

record tool_call =
  call_id :: string
  fn_name :: string
  fn_arguments :: string

record assistant_message =
  content :: "string option"
  tool_calls :: "tool_call list option"

datatype message =
    SystemMsg string
  | UserMsg string
  | AssistantMsg assistant_message
  | ToolMsg string string string

record completion_request =
  req_model :: string
  req_messages :: "message list"
  req_tools :: "string list option"
  req_tool_choice :: "string option"
  req_max_tokens :: nat

text \<open>Every call that leaves the process is logged, in order.\<close>

datatype event =
    HttpGet "(string \<times> json) list"
  | ChatCreate completion_request

text \<open>\<^verbatim>\<open>response.status_code\<close> and \<^verbatim>\<open>response.json()\<close>, which raises when the body
  is not JSON (\<open>None\<close>).\<close>

record response =
  status_code :: int
  json_body :: "json option"

text \<open>
  The registry, the completion endpoint and the library functions the code calls are
  parameters of the model. Both endpoints see the events so far, so the same request
  may be answered differently on a later call; either may raise. \<open>repr\<close> renders a list
  or a dict inside an f-string.
\<close>

record pyenv =
  requests_get :: "event list \<Rightarrow> (string \<times> json) list \<Rightarrow> response result"
  chat_create :: "event list \<Rightarrow> completion_request \<Rightarrow> assistant_message result"
  json_loads :: "string \<Rightarrow> json option"
  json_dumps :: "json \<Rightarrow> string"
  repr :: "json \<Rightarrow> string"

definition response_json :: "response \<Rightarrow> json result" where
  "response_json r = (case json_body r of None \<Rightarrow> Inl JSONDecodeError | Some d \<Rightarrow> Inr d)"

text \<open>\<^verbatim>\<open>f"{v}"\<close>: the string itself, \<^verbatim>\<open>str\<close> of a number, \<^verbatim>\<open>None\<close>, \<^verbatim>\<open>True\<close>,
  \<^verbatim>\<open>False\<close>, the \<open>repr\<close> of a container.\<close>

fun py_str :: "pyenv \<Rightarrow> json \<Rightarrow> string" where
  "py_str env (JStr s) = s"
| "py_str env (JNum n) = show_int n"
| "py_str env JNull = ''None''"
| "py_str env (JBool b) = (if b then ''True'' else ''False'')"
| "py_str env v = repr env v"

definition api_error :: "response \<Rightarrow> json" where
  "api_error r = JObj [(''error'', JStr (''API error: '' @ show_int (status_code r)))]"

section \<open>Registry Client\<close>

subsection \<open>count_trials\<close>

definition brief_title :: "json \<Rightarrow> json result" where
  "brief_title s =
     bindE (getitem s ''protocolSection'') (\<lambda>p.
     bindE (getitem p ''identificationModule'') (\<lambda>i.
     getitem i ''briefTitle''))"

definition count_trials_params :: "json \<Rightarrow> json \<Rightarrow> (string \<times> json) list" where
  "count_trials_params condition status =
     [(''format'', JStr ''json''),
      (''pageSize'', JNum 1000),
      (''query.cond'', condition),
      (''filter.overallStatus'', status),
      (''fields'', JStr ''NCTId,BriefTitle'')]"

definition count_trials_result :: "json \<Rightarrow> json \<Rightarrow> response \<Rightarrow> json result" where
  "count_trials_result condition status r =
     (if status_code r = 200 then
        bindE (response_json r) (\<lambda>data.
        bindE (dict_get data ''studies'' (JArr [])) (\<lambda>studies.
        bindE (py_len studies) (\<lambda>n.
        bindE (py_slice 3 studies) (\<lambda>first3.
        bindE (py_iter first3) (\<lambda>ss.
        bindE (mapE brief_title ss) (\<lambda>titles.
        Inr (JObj [(''count'', JNum (int n)),
                   (''condition'', condition),
                   (''status'', status),
                   (''sample_titles'', JArr titles)])))))))
      else Inr (api_error r))"

definition count_trials ::
  "pyenv \<Rightarrow> event list \<Rightarrow> json \<Rightarrow> json \<Rightarrow> event list \<times> json result" where
  "count_trials env log condition status =
     (let params = count_trials_params condition status
      in (log @ [HttpGet params],
          bindE (requests_get env log params) (count_trials_result condition status)))"

subsection \<open>get_eligibility_criteria\<close>

definition criteria_entry :: "pyenv \<Rightarrow> json \<Rightarrow> json result" where
  "criteria_entry env study =
     bindE (getitem study ''protocolSection'') (\<lambda>protocol.
     bindE (dict_get protocol ''eligibilityModule'' (JObj [])) (\<lambda>eligibility.
     bindE (getitem protocol ''identificationModule'') (\<lambda>i1.
     bindE (getitem i1 ''nctId'') (\<lambda>nct_id.
     bindE (getitem protocol ''identificationModule'') (\<lambda>i2.
     bindE (getitem i2 ''briefTitle'') (\<lambda>title.
     bindE (dict_get eligibility ''eligibilityCriteria'' (JStr ''N/A'')) (\<lambda>criteria.
     bindE (dict_get eligibility ''sex'' (JStr ''N/A'')) (\<lambda>sex.
     bindE (dict_get eligibility ''minimumAge'' (JStr ''N/A'')) (\<lambda>lo.
     bindE (dict_get eligibility ''maximumAge'' (JStr ''N/A'')) (\<lambda>hi.
     Inr (JObj [(''nct_id'', nct_id),
                (''title'', title),
                (''criteria'', criteria),
                (''sex'', sex),
                (''age_range'', JStr (py_str env lo @ '' - '' @ py_str env hi))])))))))))))"

definition eligibility_params :: "json \<Rightarrow> json \<Rightarrow> (string \<times> json) list" where
  "eligibility_params condition max_trials =
     [(''format'', JStr ''json''),
      (''pageSize'', max_trials),
      (''query.cond'', condition),
      (''filter.overallStatus'', JStr ''RECRUITING''),
      (''fields'', JStr ''NCTId,BriefTitle,EligibilityCriteria,Sex,MinimumAge,MaximumAge'')]"

definition eligibility_result :: "pyenv \<Rightarrow> json \<Rightarrow> response \<Rightarrow> json result" where
  "eligibility_result env condition r =
     (if status_code r = 200 then
        bindE (response_json r) (\<lambda>data.
        bindE (dict_get data ''studies'' (JArr [])) (\<lambda>studies.
        bindE (py_iter studies) (\<lambda>ss.
        bindE (mapE (criteria_entry env) ss) (\<lambda>criteria_list.
        Inr (JObj [(''condition'', condition),
                   (''number_of_trials'', JNum (int (length criteria_list))),
                   (''criteria'', JArr criteria_list)])))))
      else Inr (api_error r))"

definition get_eligibility_criteria ::
  "pyenv \<Rightarrow> event list \<Rightarrow> json \<Rightarrow> json \<Rightarrow> event list \<times> json result" where
  "get_eligibility_criteria env log condition max_trials =
     (let params = eligibility_params condition max_trials
      in (log @ [HttpGet params],
          bindE (requests_get env log params) (eligibility_result env condition)))"

subsection \<open>get_trial_locations\<close>

text \<open>The country test of the inner loop: \<open>True\<close> means \<^verbatim>\<open>continue\<close>.\<close>

definition skip_location :: "json \<Rightarrow> json \<Rightarrow> bool result" where
  "skip_location country loc =
     (if truthy country then
        bindE (dict_get loc ''country'' (JStr [])) (\<lambda>c.
        bindE (py_lower c) (\<lambda>lc.
        bindE (py_lower country) (\<lambda>lf.
        Inr (lc \<noteq> lf))))
      else Inr False)"

definition facility_info :: "json \<Rightarrow> json result" where
  "facility_info loc =
     bindE (dict_get loc ''facility'' (JStr ''N/A'')) (\<lambda>f.
     bindE (dict_get loc ''city'' (JStr ''N/A'')) (\<lambda>ci.
     bindE (dict_get loc ''country'' (JStr ''N/A'')) (\<lambda>co.
     Inr (JObj [(''facility'', f), (''city'', ci), (''country'', co)]))))"

text \<open>\<^verbatim>\<open>if facility_info not in facilities: facilities.append(facility_info)\<close>\<close>

definition append_new :: "json list \<Rightarrow> json \<Rightarrow> json list" where
  "append_new facilities info =
     (if list_ex (\<lambda>e. py_eq e info) facilities then facilities else facilities @ [info])"

definition add_location :: "json \<Rightarrow> json list \<Rightarrow> json \<Rightarrow> json list result" where
  "add_location country facilities loc =
     bindE (skip_location country loc) (\<lambda>skip.
     if skip then Inr facilities
     else bindE (facility_info loc) (\<lambda>info. Inr (append_new facilities info)))"

definition add_study :: "json \<Rightarrow> json list \<Rightarrow> json \<Rightarrow> json list result" where
  "add_study country facilities study =
     bindE (getitem study ''protocolSection'') (\<lambda>protocol.
     bindE (py_in ''contactsLocationsModule'' protocol) (\<lambda>has.
     if has then
       bindE (getitem protocol ''contactsLocationsModule'') (\<lambda>m.
       bindE (dict_get m ''locations'' (JArr [])) (\<lambda>locations.
       bindE (py_iter locations) (\<lambda>locs.
       foldE (add_location country) facilities locs)))
     else Inr facilities))"

definition collect_facilities :: "json \<Rightarrow> json list \<Rightarrow> json list result" where
  "collect_facilities country studies = foldE (add_study country) [] studies"

definition locations_params :: "json \<Rightarrow> json \<Rightarrow> (string \<times> json) list" where
  "locations_params condition country =
     [(''format'', JStr ''json''),
      (''pageSize'', JNum 50),
      (''query.cond'', condition),
      (''fields'', JStr ''NCTId,BriefTitle,LocationFacility,LocationCity,LocationCountry'')]
     @ (if truthy country then [(''query.locn'', country)] else [])"

definition locations_result :: "json \<Rightarrow> json \<Rightarrow> response \<Rightarrow> json result" where
  "locations_result condition country r =
     (if status_code r = 200 then
        bindE (response_json r) (\<lambda>data.
        bindE (dict_get data ''studies'' (JArr [])) (\<lambda>studies.
        bindE (py_iter studies) (\<lambda>ss.
        bindE (collect_facilities country ss) (\<lambda>facilities.
        Inr (JObj [(''condition'', condition),
                   (''country'', if truthy country then country else JStr ''all''),
                   (''number_of_facilities'', JNum (int (length facilities))),
                   (''facilities'', JArr (take 20 facilities))])))))
      else Inr (api_error r))"

definition get_trial_locations ::
  "pyenv \<Rightarrow> event list \<Rightarrow> json \<Rightarrow> json \<Rightarrow> event list \<times> json result" where
  "get_trial_locations env log condition country =
     (let params = locations_params condition country
      in (log @ [HttpGet params],
          bindE (requests_get env log params) (locations_result condition country)))"

subsection \<open>get_trial_phases\<close>

definition phase_entry :: "json \<Rightarrow> json result" where
  "phase_entry study =
     bindE (getitem study ''protocolSection'') (\<lambda>protocol.
     bindE (dict_get protocol ''statusModule'' (JObj [])) (\<lambda>status_module.
     bindE (getitem protocol ''identificationModule'') (\<lambda>i1.
     bindE (getitem i1 ''nctId'') (\<lambda>nct_id.
     bindE (getitem protocol ''identificationModule'') (\<lambda>i2.
     bindE (getitem i2 ''briefTitle'') (\<lambda>title.
     bindE (dict_get protocol ''designModule'' (JObj [])) (\<lambda>design.
     bindE (dict_get design ''phases'' (JArr [JStr ''N/A''])) (\<lambda>phases.
     bindE (dict_get status_module ''startDateStruct'' (JObj [])) (\<lambda>start.
     bindE (dict_get start ''date'' (JStr ''N/A'')) (\<lambda>start_date.
     bindE (dict_get status_module ''completionDateStruct'' (JObj [])) (\<lambda>completion.
     bindE (dict_get completion ''date'' (JStr ''N/A'')) (\<lambda>completion_date.
     Inr (JObj [(''nct_id'', nct_id),
                (''title'', title),
                (''phase'', phases),
                (''start_date'', start_date),
                (''completion_date'', completion_date)])))))))))))))"

definition phases_params :: "json \<Rightarrow> json \<Rightarrow> (string \<times> json) list" where
  "phases_params condition phase =
     [(''format'', JStr ''json''),
      (''pageSize'', JNum 100),
      (''query.cond'', condition),
      (''query.term'', phase),
      (''fields'', JStr ''NCTId,BriefTitle,Phase,StartDate,CompletionDate'')]"

definition phases_result :: "json \<Rightarrow> json \<Rightarrow> response \<Rightarrow> json result" where
  "phases_result condition phase r =
     (if status_code r = 200 then
        bindE (response_json r) (\<lambda>data.
        bindE (dict_get data ''studies'' (JArr [])) (\<lambda>studies.
        bindE (py_iter studies) (\<lambda>ss.
        bindE (mapE phase_entry ss) (\<lambda>trials.
        Inr (JObj [(''condition'', condition),
                   (''phase'', phase),
                   (''count'', JNum (int (length trials))),
                   (''trials'', JArr trials)])))))
      else Inr (api_error r))"

definition get_trial_phases ::
  "pyenv \<Rightarrow> event list \<Rightarrow> json \<Rightarrow> json \<Rightarrow> event list \<times> json result" where
  "get_trial_phases env log condition phase =
     (let params = phases_params condition phase
      in (log @ [HttpGet params],
          bindE (requests_get env log params) (phases_result condition phase)))"

section \<open>Tool Catalog and dispatch\<close>

text \<open>The names of the catalog's four entries (\<^verbatim>\<open>tools\<close>); the schemas are static
  data that the code only passes on.\<close>

definition tools :: "string list" where
  "tools = [''count_trials'', ''get_eligibility_criteria'', ''get_trial_locations'',
            ''get_trial_phases'']"

text \<open>
  \<^verbatim>\<open>f(**function_args)\<close>: the arguments must be a mapping, every key must name a
  parameter and every parameter without a default must be given; otherwise TypeError.
\<close>

definition bind_kwargs :: "string list \<Rightarrow> string list \<Rightarrow> json \<Rightarrow> (string \<Rightarrow> json option) result" where
  "bind_kwargs required optional args =
     (case args of
        JObj kvs \<Rightarrow>
          if list_all (\<lambda>k. k \<in> set (required @ optional)) (map fst kvs) \<and>
             list_all (\<lambda>k. k \<in> set (map fst kvs)) required
          then Inr (map_of kvs)
          else Inl TypeError
      | _ \<Rightarrow> Inl TypeError)"

definition kwarg :: "(string \<Rightarrow> json option) \<Rightarrow> string \<Rightarrow> json \<Rightarrow> json" where
  "kwarg kw k d = (case kw k of None \<Rightarrow> d | Some v \<Rightarrow> v)"

type_synonym tool = "pyenv \<Rightarrow> event list \<Rightarrow> json \<Rightarrow> event list \<times> json result"

definition call_count_trials :: tool where
  "call_count_trials env log args =
     (case bind_kwargs [''condition''] [''status''] args of
        Inl e \<Rightarrow> (log, Inl e)
      | Inr kw \<Rightarrow>
          count_trials env log (kwarg kw ''condition'' JNull)
            (kwarg kw ''status'' (JStr ''RECRUITING'')))"

definition call_get_eligibility_criteria :: tool where
  "call_get_eligibility_criteria env log args =
     (case bind_kwargs [''condition''] [''max_trials''] args of
        Inl e \<Rightarrow> (log, Inl e)
      | Inr kw \<Rightarrow>
          get_eligibility_criteria env log (kwarg kw ''condition'' JNull)
            (kwarg kw ''max_trials'' (JNum 5)))"

definition call_get_trial_locations :: tool where
  "call_get_trial_locations env log args =
     (case bind_kwargs [''condition''] [''country''] args of
        Inl e \<Rightarrow> (log, Inl e)
      | Inr kw \<Rightarrow>
          get_trial_locations env log (kwarg kw ''condition'' JNull)
            (kwarg kw ''country'' JNull))"

definition call_get_trial_phases :: tool where
  "call_get_trial_phases env log args =
     (case bind_kwargs [''condition'', ''phase''] [] args of
        Inl e \<Rightarrow> (log, Inl e)
      | Inr kw \<Rightarrow>
          get_trial_phases env log (kwarg kw ''condition'' JNull) (kwarg kw ''phase'' JNull))"

definition available_functions :: "string \<Rightarrow> tool option" where
  "available_functions name =
     (if name = ''count_trials'' then Some call_count_trials
      else if name = ''get_eligibility_criteria'' then Some call_get_eligibility_criteria
      else if name = ''get_trial_locations'' then Some call_get_trial_locations
      else if name = ''get_trial_phases'' then Some call_get_trial_phases
      else None)"

section \<open>Orchestration Loop\<close>

definition system_prompt :: string where
  "system_prompt = ''You are a clinical trials research assistant. You help pharmaceutical researchers find information about clinical trials using the ClinicalTrials.gov database. Answer questions clearly and cite specific data when available.''"

text \<open>One pass of the loop over \<^verbatim>\<open>tool_calls\<close>: parse the arguments, look the function
  up, call it, append the tool-result message. The two \<^verbatim>\<open>print\<close> calls of the pass write
  to the terminal only and are left out.\<close>

definition exec_tool_call ::
  "pyenv \<Rightarrow> event list \<Rightarrow> message list \<Rightarrow> tool_call \<Rightarrow> event list \<times> message list result" where
  "exec_tool_call env log messages tc =
     (case json_loads env (fn_arguments tc) of
        None \<Rightarrow> (log, Inl JSONDecodeError)
      | Some function_args \<Rightarrow>
          (case available_functions (fn_name tc) of
             None \<Rightarrow> (log, Inl (KeyError (fn_name tc)))
           | Some f \<Rightarrow>
               (case f env log function_args of
                  (log', Inl e) \<Rightarrow> (log', Inl e)
                | (log', Inr function_response) \<Rightarrow>
                    (log', Inr (messages @
                       [ToolMsg (call_id tc) (fn_name tc) (json_dumps env function_response)])))))"

fun exec_tool_calls ::
  "pyenv \<Rightarrow> event list \<Rightarrow> message list \<Rightarrow> tool_call list \<Rightarrow> event list \<times> message list result" where
  "exec_tool_calls env log messages [] = (log, Inr messages)"
| "exec_tool_calls env log messages (tc # tcs) =
     (case exec_tool_call env log messages tc of
        (log', Inl e) \<Rightarrow> (log', Inl e)
      | (log', Inr messages') \<Rightarrow> exec_tool_calls env log' messages' tcs)"

definition first_request :: "string \<Rightarrow> string \<Rightarrow> completion_request" where
  "first_request user_question model =
     \<lparr>req_model = model,
      req_messages = [SystemMsg system_prompt, UserMsg user_question],
      req_tools = Some tools,
      req_tool_choice = Some ''auto'',
      req_max_tokens = 4096\<rparr>"

definition final_request :: "string \<Rightarrow> message list \<Rightarrow> completion_request" where
  "final_request model messages =
     \<lparr>req_model = model,
      req_messages = messages,
      req_tools = None,
      req_tool_choice = None,
      req_max_tokens = 4096\<rparr>"

definition run_agent :: "pyenv \<Rightarrow> string \<Rightarrow> string \<Rightarrow> event list \<times> string option result" where
  "run_agent env user_question model =
     (let messages = [SystemMsg system_prompt, UserMsg user_question];
          request = first_request user_question model;
          log1 = [ChatCreate request]
      in case chat_create env [] request of
           Inl e \<Rightarrow> (log1, Inl e)
         | Inr response_message \<Rightarrow>
             (case tool_calls response_message of
                None \<Rightarrow> (log1, Inr (content response_message))
              | Some [] \<Rightarrow> (log1, Inr (content response_message))
              | Some (tc # tcs) \<Rightarrow>
                  (case exec_tool_calls env log1 (messages @ [AssistantMsg response_message])
                          (tc # tcs) of
                     (log2, Inl e) \<Rightarrow> (log2, Inl e)
                   | (log2, Inr messages') \<Rightarrow>
                       (let final = final_request model messages'
                        in (log2 @ [ChatCreate final],
                            case chat_create env log2 final of
                              Inl e \<Rightarrow> Inl e
                            | Inr final_message \<Rightarrow> Inr (content final_message))))))"

section \<open>Reference notions and stubs for concrete runs\<close>

text \<open>
  What follows is not part of \<^verbatim>\<open>agent.py\<close>: the notions the statements below compare the
  code with (equality up to letter case, defaulted fields, the scan of the locations and its
  distinct entries in first-seen order, the match between invocations and registry calls), and
  stub endpoints and payloads on which the code is run.
\<close>

text \<open>A registry that answers every request with the same response, next to a completion
  endpoint that is never reached.\<close>

definition registry_stub :: "response \<Rightarrow> pyenv" where
  "registry_stub r =
     \<lparr>requests_get = (\<lambda>log params. Inr r),
      chat_create = (\<lambda>log request. Inl APIError),
      json_loads = (\<lambda>s. None),
      json_dumps = (\<lambda>v. []),
      repr = (\<lambda>v. [])\<rparr>"

text \<open>A completion endpoint that answers in plain text, without tool invocations.\<close>

definition direct_answer_stub :: pyenv where
  "direct_answer_stub =
     \<lparr>requests_get = (\<lambda>log params. Inl RequestException),
      chat_create = (\<lambda>log request.
         Inr \<lparr>content = Some ''I cannot look that up.'', tool_calls = None\<rparr>),
      json_loads = (\<lambda>s. None),
      json_dumps = (\<lambda>v. []),
      repr = (\<lambda>v. [])\<rparr>"

text \<open>Two study records, the second without an eligibility module.\<close>

definition study_a :: json where
  "study_a =
     JObj [(''protocolSection'',
       JObj [(''identificationModule'',
               JObj [(''nctId'', JStr ''NCT00000001''), (''briefTitle'', JStr ''Trial A'')]),
             (''eligibilityModule'',
               JObj [(''eligibilityCriteria'', JStr ''Adults''), (''sex'', JStr ''ALL''),
                     (''minimumAge'', JStr ''18 Years'')])])]"

definition study_b :: json where
  "study_b =
     JObj [(''protocolSection'',
       JObj [(''identificationModule'',
               JObj [(''nctId'', JStr ''NCT00000002''), (''briefTitle'', JStr ''Trial B'')])])]"

definition two_studies :: response where
  "two_studies = \<lparr>status_code = 200,
                   json_body = Some (JObj [(''studies'', JArr [study_a, study_b])])\<rparr>"

text \<open>A study with 21 sites, one per letter, and a response of four such studies.\<close>

definition site :: "char \<Rightarrow> json" where
  "site ch = JObj [(''facility'', JStr [ch]), (''city'', JStr ''Madrid''),
                   (''country'', JStr ''Spain'')]"

definition study_with_sites :: "string \<Rightarrow> string \<Rightarrow> json" where
  "study_with_sites title letters =
     JObj [(''protocolSection'',
       JObj [(''identificationModule'',
               JObj [(''nctId'', JStr ''NCT00000003''), (''briefTitle'', JStr title)]),
             (''contactsLocationsModule'',
               JObj [(''locations'', JArr (map site letters))])])]"

definition four_studies :: "json list" where
  "four_studies =
     [study_with_sites ''T1'' ''abcdefghijk'', study_with_sites ''T2'' ''lmnopqrstu'',
      study_with_sites ''T3'' ''abc'', study_with_sites ''T4'' []]"

definition many_sites :: response where
  "many_sites = \<lparr>status_code = 200,
                  json_body = Some (JObj [(''studies'', JArr four_studies)])\<rparr>"

text \<open>Two strings are equal up to letter case when they have the same length and, position
  by position, hold the same character or an upper-case letter and its lower-case form.\<close>

definition same_letter :: "char \<Rightarrow> char \<Rightarrow> bool" where
  "same_letter x y \<longleftrightarrow>
     x = y \<or> (is_upper x \<and> y = lower_char x) \<or> (is_upper y \<and> x = lower_char y)"

definition equal_ignoring_case :: "string \<Rightarrow> string \<Rightarrow> bool" where
  "equal_ignoring_case a b = list_all2 same_letter a b"











text \<open>Two dicts seen as maps: the same keys, with equal values under each key.\<close>

definition obj_eq :: "(json \<Rightarrow> json \<Rightarrow> bool) \<Rightarrow> (string \<times> json) list \<Rightarrow> (string \<times> json) list \<Rightarrow> bool" where
  "obj_eq R a b \<longleftrightarrow>
     (\<forall>k. (map_of a k = None \<longleftrightarrow> map_of b k = None) \<and>
          (\<forall>v w. map_of a k = Some v \<longrightarrow> map_of b k = Some w \<longrightarrow> R v w))"

text \<open>
  The scan over the studies and their locations, without the accumulator: the facility
  dictionaries of the location entries that pass the country filter, in scan order.
\<close>

fun scan_locations :: "json \<Rightarrow> json list \<Rightarrow> json list result" where
  "scan_locations country [] = Inr []"
| "scan_locations country (loc # locs) =
     (case skip_location country loc of
        Inl e \<Rightarrow> Inl e
      | Inr skip \<Rightarrow>
          if skip then scan_locations country locs
          else (case facility_info loc of
                  Inl e \<Rightarrow> Inl e
                | Inr info \<Rightarrow>
                    (case scan_locations country locs of
                       Inl e \<Rightarrow> Inl e
                     | Inr rest \<Rightarrow> Inr (info # rest))))"

definition scan_study :: "json \<Rightarrow> json \<Rightarrow> json list result" where
  "scan_study country study =
     bindE (getitem study ''protocolSection'') (\<lambda>protocol.
     bindE (py_in ''contactsLocationsModule'' protocol) (\<lambda>has.
     if has then
       bindE (getitem protocol ''contactsLocationsModule'') (\<lambda>m.
       bindE (dict_get m ''locations'' (JArr [])) (\<lambda>locations.
       bindE (py_iter locations) (\<lambda>locs.
       scan_locations country locs)))
     else Inr []))"

fun scan_studies :: "json \<Rightarrow> json list \<Rightarrow> json list result" where
  "scan_studies country [] = Inr []"
| "scan_studies country (study # studies) =
     (case scan_study country study of
        Inl e \<Rightarrow> Inl e
      | Inr xs \<Rightarrow>
          (case scan_studies country studies of
             Inl e \<Rightarrow> Inl e
           | Inr ys \<Rightarrow> Inr (xs @ ys)))"

text \<open>The distinct entries of a list in first-seen order: the head, then the distinct
  entries of the rest that are not equal to the head.\<close>

function first_seen :: "json list \<Rightarrow> json list" where
  "first_seen [] = []"
| "first_seen (x # xs) = x # first_seen (filter (\<lambda>y. \<not> py_eq x y) xs)"
  by pat_completeness auto
termination
  by (relation "measure length") (auto simp: less_Suc_eq_le)

definition seen :: "json list \<Rightarrow> json \<Rightarrow> bool" where
  "seen acc x = list_ex (\<lambda>e. py_eq e x) acc"

text \<open>Every entry of the scan is a dictionary with the three keys; on entries whose three
  values are strings, Python equality is identity.\<close>

definition facility_shaped :: "json \<Rightarrow> bool" where
  "facility_shaped x \<longleftrightarrow>
     (\<exists>f ci co. x = JObj [(''facility'', f), (''city'', ci), (''country'', co)])"

text \<open>
  \<open>call_matches env log tc p r\<close>: with \<open>log\<close> the events so far, invocation \<open>tc\<close> parses,
  names a function of \<open>available_functions\<close>, and that function, called on the parsed
  arguments, issues the registry request \<open>p\<close> and returns \<open>r\<close>. \<open>calls_match\<close> chains this
  over the invocations in order, each call seeing the requests of the earlier ones.
\<close>

definition call_matches ::
  "pyenv \<Rightarrow> event list \<Rightarrow> tool_call \<Rightarrow> (string \<times> json) list \<Rightarrow> json \<Rightarrow> bool" where
  "call_matches env log tc p r =
     (case json_loads env (fn_arguments tc) of
        None \<Rightarrow> False
      | Some args \<Rightarrow>
          (case available_functions (fn_name tc) of
             None \<Rightarrow> False
           | Some f \<Rightarrow> f env log args = (log @ [HttpGet p], Inr r)))"

fun calls_match ::
  "pyenv \<Rightarrow> event list \<Rightarrow> tool_call list \<Rightarrow> (string \<times> json) list list \<Rightarrow> json list \<Rightarrow> bool" where
  "calls_match env log [] [] [] = True"
| "calls_match env log (tc # tcs) (p # ps) (r # rs) =
     (call_matches env log tc p r \<and> calls_match env (log @ [HttpGet p]) tcs ps rs)"
| "calls_match env log _ _ _ = False"

definition tool_messages :: "pyenv \<Rightarrow> tool_call list \<Rightarrow> json list \<Rightarrow> message list" where
  "tool_messages env tcs rs =
     map (\<lambda>(tc, r). ToolMsg (call_id tc) (fn_name tc) (json_dumps env r)) (zip tcs rs)"

text \<open>A completion endpoint that answers the first call with the given tool invocations and
  every later call with a text, a registry without studies, and a \<open>json.loads\<close> that knows
  three argument strings.\<close>

definition quoted :: "string \<Rightarrow> string" where
  "quoted s = CHR 0x22 # s @ [CHR 0x22]"

definition diabetes_args :: string where
  "diabetes_args = ''{'' @ quoted ''condition'' @ '': '' @ quoted ''diabetes'' @ ''}''"

definition asthma_args :: string where
  "asthma_args = ''{'' @ quoted ''condition'' @ '': '' @ quoted ''asthma'' @ '', '' @
                 quoted ''phase'' @ '': '' @ quoted ''PHASE3'' @ ''}''"

definition loads_stub :: "string \<Rightarrow> json option" where
  "loads_stub =
     map_of [(diabetes_args, JObj [(''condition'', JStr ''diabetes'')]),
             (asthma_args, JObj [(''condition'', JStr ''asthma''), (''phase'', JStr ''PHASE3'')]),
             (''{}'', JObj [])]"

definition dumps_stub :: "json \<Rightarrow> string" where
  "dumps_stub v = (case getitem v ''count'' of Inr (JNum n) \<Rightarrow> ''count '' @ show_int n
                   | _ \<Rightarrow> ''no count'')"

definition agent_stub :: "tool_call list \<Rightarrow> pyenv" where
  "agent_stub tcs =
     \<lparr>requests_get = (\<lambda>log params.
         Inr \<lparr>status_code = 200, json_body = Some (JObj [(''studies'', JArr [])])\<rparr>),
      chat_create = (\<lambda>log request.
         if log = [] then Inr \<lparr>content = None, tool_calls = Some tcs\<rparr>
         else Inr \<lparr>content = Some ''No trials were found.'', tool_calls = None\<rparr>),
      json_loads = loads_stub,
      json_dumps = dumps_stub,
      repr = (\<lambda>v. [])\<rparr>"

definition call_1 :: tool_call where
  "call_1 = \<lparr>call_id = ''call_1'', fn_name = ''count_trials'', fn_arguments = diabetes_args\<rparr>"

definition call_2 :: tool_call where
  "call_2 = \<lparr>call_id = ''call_2'', fn_name = ''get_trial_phases'', fn_arguments = asthma_args\<rparr>"

definition call_unknown :: tool_call where
  "call_unknown = \<lparr>call_id = ''call_2'', fn_name = ''get_trial_sponsors'', fn_arguments = ''{}''\<rparr>"

section \<open>Basic facts\<close>

lemma bindE_Inl [simp]: "bindE (Inl e) f = Inl e"
  by (simp add: bindE_def)

lemma bindE_Inr [simp]: "bindE (Inr x) f = f x"
  by (simp add: bindE_def)

lemma bindE_eq_Inr: "bindE m f = Inr y \<longleftrightarrow> (\<exists>x. m = Inr x \<and> f x = Inr y)"
  by (cases m) simp_all

section \<open>Upstream errors\<close>

text \<open>
  C1. For each of the four Registry Client operations, a response whose HTTP status is not
  200 makes the operation return (not raise) the dictionary whose only key is \<open>error\<close>,
  with the text \<open>API error: \<close> followed by the decimal status code; the dictionary has
  none of the keys \<open>count\<close>, \<open>sample_titles\<close>, \<open>criteria\<close>, \<open>facilities\<close>, \<open>trials\<close>.
\<close>

theorem non_200_yields_error_dictionary:
  assumes "status_code r \<noteq> 200"
  shows
    "(requests_get env log (count_trials_params c s) = Inr r \<longrightarrow>
        snd (count_trials env log c s) =
          Inr (JObj [(''error'', JStr (''API error: '' @ show_int (status_code r)))])) \<and>
     (requests_get env log (eligibility_params c n) = Inr r \<longrightarrow>
        snd (get_eligibility_criteria env log c n) =
          Inr (JObj [(''error'', JStr (''API error: '' @ show_int (status_code r)))])) \<and>
     (requests_get env log (locations_params c k) = Inr r \<longrightarrow>
        snd (get_trial_locations env log c k) =
          Inr (JObj [(''error'', JStr (''API error: '' @ show_int (status_code r)))])) \<and>
     (requests_get env log (phases_params c p) = Inr r \<longrightarrow>
        snd (get_trial_phases env log c p) =
          Inr (JObj [(''error'', JStr (''API error: '' @ show_int (status_code r)))])) \<and>
     list_all (\<lambda>key. getitem (JObj [(''error'', JStr (''API error: '' @ show_int (status_code r)))]) key
                      = Inl (KeyError key))
       [''count'', ''sample_titles'', ''criteria'', ''facilities'', ''trials'']"
  using assms
  by (simp add: count_trials_def count_trials_result_def get_eligibility_criteria_def
      eligibility_result_def get_trial_locations_def locations_result_def
      get_trial_phases_def phases_result_def api_error_def Let_def)

theorem non_200_yields_error_dictionary_witness:
  "snd (count_trials (registry_stub \<lparr>status_code = 404, json_body = None\<rparr>) []
          (JStr ''diabetes'') (JStr ''RECRUITING''))
     = Inr (JObj [(''error'', JStr ''API error: 404'')]) \<and>
   snd (get_eligibility_criteria (registry_stub \<lparr>status_code = 404, json_body = None\<rparr>) []
          (JStr ''diabetes'') (JNum 5))
     = Inr (JObj [(''error'', JStr ''API error: 404'')]) \<and>
   snd (get_trial_locations (registry_stub \<lparr>status_code = 404, json_body = None\<rparr>) []
          (JStr ''diabetes'') (JStr ''Spain''))
     = Inr (JObj [(''error'', JStr ''API error: 404'')]) \<and>
   snd (get_trial_phases (registry_stub \<lparr>status_code = 404, json_body = None\<rparr>) []
          (JStr ''diabetes'') (JStr ''PHASE3''))
     = Inr (JObj [(''error'', JStr ''API error: 404'')])"
proof -
  have s: "show_int 404 = ''404''"
    by (simp add: show_int_def show_nat.simps digit_def)
  have h: "status_code \<lparr>status_code = 404, json_body = None\<rparr> \<noteq> 200"
    by simp
  show ?thesis
    using non_200_yields_error_dictionary [OF h,
        of "registry_stub \<lparr>status_code = 404, json_body = None\<rparr>" "[]"
           "JStr ''diabetes''" "JStr ''RECRUITING''" "JNum 5" "JStr ''Spain''" "JStr ''PHASE3''"]
    by (simp add: registry_stub_def s)
qed

section \<open>Responses without studies\<close>

text \<open>
  C7. For each of the four Registry Client operations, a 200 response whose JSON object has
  no \<open>studies\<close> key, or has the empty array there, makes the operation return (not raise)
  its summary with a zero count and empty lists.
\<close>

theorem empty_studies_give_empty_summary:
  assumes "status_code r = 200"
    and "json_body r = Some (JObj kvs)"
    and "map_of kvs ''studies'' = None \<or> map_of kvs ''studies'' = Some (JArr [])"
  shows
    "(requests_get env log (count_trials_params c s) = Inr r \<longrightarrow>
        snd (count_trials env log c s) =
          Inr (JObj [(''count'', JNum 0), (''condition'', c), (''status'', s),
                     (''sample_titles'', JArr [])])) \<and>
     (requests_get env log (eligibility_params c n) = Inr r \<longrightarrow>
        snd (get_eligibility_criteria env log c n) =
          Inr (JObj [(''condition'', c), (''number_of_trials'', JNum 0),
                     (''criteria'', JArr [])])) \<and>
     (requests_get env log (locations_params c k) = Inr r \<longrightarrow>
        snd (get_trial_locations env log c k) =
          Inr (JObj [(''condition'', c),
                     (''country'', if truthy k then k else JStr ''all''),
                     (''number_of_facilities'', JNum 0), (''facilities'', JArr [])])) \<and>
     (requests_get env log (phases_params c p) = Inr r \<longrightarrow>
        snd (get_trial_phases env log c p) =
          Inr (JObj [(''condition'', c), (''phase'', p), (''count'', JNum 0),
                     (''trials'', JArr [])]))"
proof -
  from assms(3) have studies: "dict_get (JObj kvs) ''studies'' (JArr []) = Inr (JArr [])"
    by auto
  have "count_trials_result c s r =
          Inr (JObj [(''count'', JNum 0), (''condition'', c), (''status'', s),
                     (''sample_titles'', JArr [])])"
    using assms(1,2) studies
    by (simp add: count_trials_result_def response_json_def del: dict_get.simps)
  moreover have "eligibility_result env c r =
          Inr (JObj [(''condition'', c), (''number_of_trials'', JNum 0),
                     (''criteria'', JArr [])])"
    using assms(1,2) studies
    by (simp add: eligibility_result_def response_json_def del: dict_get.simps)
  moreover have "locations_result c k r =
          Inr (JObj [(''condition'', c),
                     (''country'', if truthy k then k else JStr ''all''),
                     (''number_of_facilities'', JNum 0), (''facilities'', JArr [])])"
    using assms(1,2) studies
    by (simp add: locations_result_def response_json_def collect_facilities_def
        del: dict_get.simps)
  moreover have "phases_result c p r =
          Inr (JObj [(''condition'', c), (''phase'', p), (''count'', JNum 0),
                     (''trials'', JArr [])])"
    using assms(1,2) studies
    by (simp add: phases_result_def response_json_def del: dict_get.simps)
  ultimately show ?thesis
    by (simp add: count_trials_def get_eligibility_criteria_def get_trial_locations_def
        get_trial_phases_def Let_def)
qed

theorem empty_studies_give_empty_summary_witness:
  "snd (count_trials (registry_stub \<lparr>status_code = 200, json_body = Some (JObj [])\<rparr>) []
          (JStr ''diabetes'') (JStr ''RECRUITING''))
     = Inr (JObj [(''count'', JNum 0), (''condition'', JStr ''diabetes''),
                  (''status'', JStr ''RECRUITING''), (''sample_titles'', JArr [])]) \<and>
   snd (get_eligibility_criteria
          (registry_stub \<lparr>status_code = 200, json_body = Some (JObj [])\<rparr>) []
          (JStr ''diabetes'') (JNum 5))
     = Inr (JObj [(''condition'', JStr ''diabetes''), (''number_of_trials'', JNum 0),
                  (''criteria'', JArr [])]) \<and>
   snd (get_trial_locations
          (registry_stub \<lparr>status_code = 200,
             json_body = Some (JObj [(''studies'', JArr [])])\<rparr>) []
          (JStr ''diabetes'') JNull)
     = Inr (JObj [(''condition'', JStr ''diabetes''), (''country'', JStr ''all''),
                  (''number_of_facilities'', JNum 0), (''facilities'', JArr [])]) \<and>
   snd (get_trial_phases
          (registry_stub \<lparr>status_code = 200,
             json_body = Some (JObj [(''studies'', JArr [])])\<rparr>) []
          (JStr ''asthma'') (JStr ''PHASE3''))
     = Inr (JObj [(''condition'', JStr ''asthma''), (''phase'', JStr ''PHASE3''),
                  (''count'', JNum 0), (''trials'', JArr [])])"
proof -
  have absent: "map_of ([] :: (string \<times> json) list) ''studies'' = None \<or>
                map_of ([] :: (string \<times> json) list) ''studies'' = Some (JArr [])"
    by simp
  have empty: "map_of [(''studies'', JArr [])] ''studies'' = None \<or>
               map_of [(''studies'', JArr [])] ''studies'' = Some (JArr [])"
    by simp
  note a = empty_studies_give_empty_summary
      [of "\<lparr>status_code = 200, json_body = Some (JObj [])\<rparr>" "[]",
        OF _ _ absent,
        of "registry_stub \<lparr>status_code = 200, json_body = Some (JObj [])\<rparr>" "[]"
           "JStr ''diabetes''" "JStr ''RECRUITING''" "JNum 5" JNull "JStr ''PHASE3''"]
  note b = empty_studies_give_empty_summary
      [of "\<lparr>status_code = 200, json_body = Some (JObj [(''studies'', JArr [])])\<rparr>"
          "[(''studies'', JArr [])]",
        OF _ _ empty,
        of "registry_stub \<lparr>status_code = 200,
              json_body = Some (JObj [(''studies'', JArr [])])\<rparr>" "[]"
           "JStr ''diabetes''" "JStr ''RECRUITING''" "JNum 5" JNull "JStr ''PHASE3''"]
  note c = empty_studies_give_empty_summary
      [of "\<lparr>status_code = 200, json_body = Some (JObj [(''studies'', JArr [])])\<rparr>"
          "[(''studies'', JArr [])]",
        OF _ _ empty,
        of "registry_stub \<lparr>status_code = 200,
              json_body = Some (JObj [(''studies'', JArr [])])\<rparr>" "[]"
           "JStr ''asthma''" "JStr ''RECRUITING''" "JNum 5" JNull "JStr ''PHASE3''"]
  show ?thesis
    using a b c by (simp add: registry_stub_def)
qed

section \<open>Direct answers\<close>

text \<open>
  C3. When the model's first response carries no tool invocations (\<^verbatim>\<open>tool_calls\<close> is
  \<^verbatim>\<open>None\<close> or empty), \<open>run_agent\<close> returns that response's text as it is; the only
  call made is the first completion call, and no Registry Client call is made.
\<close>

theorem no_tool_calls_return_model_text:
  assumes "chat_create env [] (first_request question model) = Inr m"
    and "tool_calls m = None \<or> tool_calls m = Some []"
  shows "run_agent env question model =
           ([ChatCreate (first_request question model)], Inr (content m))"
  using assms by (auto simp: run_agent_def Let_def)

theorem no_tool_calls_return_model_text_witness:
  "run_agent direct_answer_stub ''Hello'' ''llama-3.3-70b-versatile'' =
     ([ChatCreate (first_request ''Hello'' ''llama-3.3-70b-versatile'')],
      Inr (Some ''I cannot look that up.''))"
proof -
  have h1: "chat_create direct_answer_stub [] (first_request ''Hello'' ''llama-3.3-70b-versatile'')
             = Inr \<lparr>content = Some ''I cannot look that up.'', tool_calls = None\<rparr>"
    by (simp add: direct_answer_stub_def)
  have h2: "tool_calls \<lparr>content = Some ''I cannot look that up.'', tool_calls = None\<rparr> = None \<or>
            tool_calls \<lparr>content = Some ''I cannot look that up.'', tool_calls = None\<rparr> = Some []"
    by simp
  show ?thesis
    using no_tool_calls_return_model_text [OF h1 h2] by simp
qed

section \<open>Sizes of the returned lists\<close>

lemma mapE_length: "mapE f xs = Inr ys \<Longrightarrow> length ys = length xs"
  by (induction xs arbitrary: ys) (auto split: sum.splits)

text \<open>
  C6, as stated (the criteria list and \<open>number_of_trials\<close> never exceed \<open>max_trials\<close>,
  however many records the response holds), fails: with \<open>max_trials = 1\<close> and a response of
  two records the summary reports two trials.
\<close>

theorem eligibility_not_bounded_by_max_trials:
  "snd (get_eligibility_criteria (registry_stub two_studies) [] (JStr ''asthma'') (JNum 1)) =
     Inr (JObj [(''condition'', JStr ''asthma''),
                (''number_of_trials'', JNum 2),
                (''criteria'', JArr [
                   JObj [(''nct_id'', JStr ''NCT00000001''), (''title'', JStr ''Trial A''),
                         (''criteria'', JStr ''Adults''), (''sex'', JStr ''ALL''),
                         (''age_range'', JStr ''18 Years - N/A'')],
                   JObj [(''nct_id'', JStr ''NCT00000002''), (''title'', JStr ''Trial B''),
                         (''criteria'', JStr ''N/A''), (''sex'', JStr ''N/A''),
                         (''age_range'', JStr ''N/A - N/A'')]])])"
  by (simp add: get_eligibility_criteria_def eligibility_result_def registry_stub_def
      two_studies_def study_a_def study_b_def response_json_def criteria_entry_def Let_def)

text \<open>
  C6, amended. \<open>get_eligibility_criteria\<close> sends \<open>max_trials\<close> to the registry as the
  \<open>pageSize\<close> of its request and does not truncate the answer: on a 200 response whose
  \<open>studies\<close> is an array, a returned summary has one criteria entry per study record and
  \<open>number_of_trials\<close> is the number of records of the response.
\<close>

theorem eligibility_one_entry_per_study:
  assumes "requests_get env log (eligibility_params c n) = Inr r"
    and "status_code r = 200"
    and "json_body r = Some (JObj kvs)"
    and "map_of kvs ''studies'' = Some (JArr studies)"
    and "snd (get_eligibility_criteria env log c n) = Inr s"
  shows "\<exists>entries.
           s = JObj [(''condition'', c),
                     (''number_of_trials'', JNum (int (length studies))),
                     (''criteria'', JArr entries)] \<and>
           length entries = length studies \<and>
           fst (get_eligibility_criteria env log c n) = log @ [HttpGet (eligibility_params c n)] \<and>
           map_of (eligibility_params c n) ''pageSize'' = Some n"
proof -
  from assms have "bindE (mapE (criteria_entry env) studies) (\<lambda>criteria_list.
        Inr (JObj [(''condition'', c),
                   (''number_of_trials'', JNum (int (length criteria_list))),
                   (''criteria'', JArr criteria_list)])) = Inr s"
    by (simp add: get_eligibility_criteria_def eligibility_result_def response_json_def Let_def)
  then obtain entries where e: "mapE (criteria_entry env) studies = Inr entries"
    and s: "s = JObj [(''condition'', c),
                   (''number_of_trials'', JNum (int (length entries))),
                   (''criteria'', JArr entries)]"
    by (auto simp: bindE_eq_Inr)
  from e have "length entries = length studies" by (rule mapE_length)
  with s show ?thesis
    by (simp add: get_eligibility_criteria_def eligibility_params_def Let_def)
qed

theorem eligibility_one_entry_per_study_witness:
  "\<exists>entries.
     JObj [(''condition'', JStr ''asthma''),
           (''number_of_trials'', JNum 2),
           (''criteria'', JArr [
              JObj [(''nct_id'', JStr ''NCT00000001''), (''title'', JStr ''Trial A''),
                    (''criteria'', JStr ''Adults''), (''sex'', JStr ''ALL''),
                    (''age_range'', JStr ''18 Years - N/A'')],
              JObj [(''nct_id'', JStr ''NCT00000002''), (''title'', JStr ''Trial B''),
                    (''criteria'', JStr ''N/A''), (''sex'', JStr ''N/A''),
                    (''age_range'', JStr ''N/A - N/A'')]])]
       = JObj [(''condition'', JStr ''asthma''),
               (''number_of_trials'', JNum (int (length [study_a, study_b]))),
               (''criteria'', JArr entries)] \<and>
     length entries = length [study_a, study_b] \<and>
     fst (get_eligibility_criteria (registry_stub two_studies) [] (JStr ''asthma'') (JNum 1))
       = [] @ [HttpGet (eligibility_params (JStr ''asthma'') (JNum 1))] \<and>
     map_of (eligibility_params (JStr ''asthma'') (JNum 1)) ''pageSize'' = Some (JNum 1)"
proof -
  have h1: "requests_get (registry_stub two_studies) []
              (eligibility_params (JStr ''asthma'') (JNum 1)) = Inr two_studies"
    by (simp add: registry_stub_def)
  have h2: "status_code two_studies = 200"
    by (simp add: two_studies_def)
  have h3: "json_body two_studies = Some (JObj [(''studies'', JArr [study_a, study_b])])"
    by (simp add: two_studies_def)
  have h4: "map_of [(''studies'', JArr [study_a, study_b])] ''studies''
              = Some (JArr [study_a, study_b])"
    by simp
  have h5: "snd (get_eligibility_criteria (registry_stub two_studies) [] (JStr ''asthma'') (JNum 1)) =
     Inr (JObj [(''condition'', JStr ''asthma''),
                (''number_of_trials'', JNum 2),
                (''criteria'', JArr [
                   JObj [(''nct_id'', JStr ''NCT00000001''), (''title'', JStr ''Trial A''),
                         (''criteria'', JStr ''Adults''), (''sex'', JStr ''ALL''),
                         (''age_range'', JStr ''18 Years - N/A'')],
                   JObj [(''nct_id'', JStr ''NCT00000002''), (''title'', JStr ''Trial B''),
                         (''criteria'', JStr ''N/A''), (''sex'', JStr ''N/A''),
                         (''age_range'', JStr ''N/A - N/A'')]])])"
    by (simp add: get_eligibility_criteria_def eligibility_result_def registry_stub_def
        two_studies_def study_a_def study_b_def response_json_def criteria_entry_def Let_def)
  show ?thesis
    by (rule eligibility_one_entry_per_study [OF h1 h2 h3 h4 h5])
qed

lemma locations_result_200:
  assumes "status_code r = 200"
    and "json_body r = Some (JObj kvs)"
    and "map_of kvs ''studies'' = Some (JArr studies)"
  shows "locations_result c k r =
           bindE (collect_facilities k studies) (\<lambda>facilities.
             Inr (JObj [(''condition'', c),
                        (''country'', if truthy k then k else JStr ''all''),
                        (''number_of_facilities'', JNum (int (length facilities))),
                        (''facilities'', JArr (take 20 facilities))]))"
  using assms by (simp add: locations_result_def response_json_def)

lemma count_trials_result_200:
  assumes "status_code r = 200"
    and "json_body r = Some (JObj kvs)"
    and "map_of kvs ''studies'' = Some (JArr studies)"
  shows "count_trials_result c s r =
           bindE (mapE brief_title (take 3 studies)) (\<lambda>titles.
             Inr (JObj [(''count'', JNum (int (length studies))),
                        (''condition'', c),
                        (''status'', s),
                        (''sample_titles'', JArr titles)]))"
  using assms by (simp add: count_trials_result_def response_json_def)

lemma collect_four_studies:
  "collect_facilities JNull four_studies = Inr (map site ''abcdefghijklmnopqrstu'')"
  by code_simp

lemma titles_four_studies:
  "mapE brief_title (take 3 four_studies) = Inr [JStr ''T1'', JStr ''T2'', JStr ''T3'']"
  by (simp add: four_studies_def study_with_sites_def brief_title_def)

text \<open>
  C9. List-valued results are cut to fixed caps. On a 200 response whose \<open>studies\<close> is an
  array, the \<open>facilities\<close> list returned by \<open>get_trial_locations\<close> is the first 20 entries
  of the deduplicated accumulation, and the \<open>sample_titles\<close> list returned by
  \<open>count_trials\<close> holds the titles of the first 3 study records; so they have at most 20 and
  at most 3 entries.
\<close>

theorem returned_lists_are_capped:
  assumes "status_code r = 200"
    and "json_body r = Some (JObj kvs)"
    and "map_of kvs ''studies'' = Some (JArr studies)"
  shows
    "(requests_get env log (locations_params c k) = Inr r \<longrightarrow>
      snd (get_trial_locations env log c k) = Inr s \<longrightarrow>
        (\<exists>fs. collect_facilities k studies = Inr fs \<and>
              getitem s ''facilities'' = Inr (JArr (take 20 fs)) \<and>
              length (take 20 fs) \<le> 20)) \<and>
     (requests_get env log (count_trials_params c st) = Inr r \<longrightarrow>
      snd (count_trials env log c st) = Inr s' \<longrightarrow>
        (\<exists>titles. mapE brief_title (take 3 studies) = Inr titles \<and>
                  getitem s' ''sample_titles'' = Inr (JArr titles) \<and>
                  length titles \<le> 3))"
proof (intro conjI impI)
  assume "requests_get env log (locations_params c k) = Inr r"
    and "snd (get_trial_locations env log c k) = Inr s"
  then have "locations_result c k r = Inr s"
    by (simp add: get_trial_locations_def Let_def)
  then obtain fs where fs: "collect_facilities k studies = Inr fs"
    and s: "s = JObj [(''condition'', c),
                      (''country'', if truthy k then k else JStr ''all''),
                      (''number_of_facilities'', JNum (int (length fs))),
                      (''facilities'', JArr (take 20 fs))]"
    unfolding locations_result_200 [OF assms] bindE_eq_Inr by blast
  from s have "getitem s ''facilities'' = Inr (JArr (take 20 fs))" by simp
  with fs show "\<exists>fs. collect_facilities k studies = Inr fs \<and>
              getitem s ''facilities'' = Inr (JArr (take 20 fs)) \<and>
              length (take 20 fs) \<le> 20"
    by simp
next
  assume "requests_get env log (count_trials_params c st) = Inr r"
    and "snd (count_trials env log c st) = Inr s'"
  then have "count_trials_result c st r = Inr s'"
    by (simp add: count_trials_def Let_def)
  then obtain titles where t: "mapE brief_title (take 3 studies) = Inr titles"
    and s: "s' = JObj [(''count'', JNum (int (length studies))),
                       (''condition'', c),
                       (''status'', st),
                       (''sample_titles'', JArr titles)]"
    unfolding count_trials_result_200 [OF assms] bindE_eq_Inr by blast
  from t have "length titles = length (take 3 studies)" by (rule mapE_length)
  then have "length titles \<le> 3" by simp
  moreover from s have "getitem s' ''sample_titles'' = Inr (JArr titles)" by simp
  ultimately show "\<exists>titles. mapE brief_title (take 3 studies) = Inr titles \<and>
                  getitem s' ''sample_titles'' = Inr (JArr titles) \<and>
                  length titles \<le> 3"
    using t by simp
qed

theorem returned_lists_are_capped_witness:
  "(\<exists>fs. collect_facilities JNull four_studies = Inr fs \<and>
         getitem (JObj [(''condition'', JStr ''depression''), (''country'', JStr ''all''),
                        (''number_of_facilities'', JNum 21),
                        (''facilities'', JArr (map site ''abcdefghijklmnopqrst''))])
           ''facilities'' = Inr (JArr (take 20 fs)) \<and>
         length (take 20 fs) \<le> 20) \<and>
   (\<exists>titles. mapE brief_title (take 3 four_studies) = Inr titles \<and>
         getitem (JObj [(''count'', JNum 4), (''condition'', JStr ''depression''),
                        (''status'', JStr ''RECRUITING''),
                        (''sample_titles'', JArr [JStr ''T1'', JStr ''T2'', JStr ''T3''])])
           ''sample_titles'' = Inr (JArr titles) \<and>
         length titles \<le> 3)"
proof -
  have h1: "status_code many_sites = 200"
    by (simp add: many_sites_def)
  have h2: "json_body many_sites = Some (JObj [(''studies'', JArr four_studies)])"
    by (simp add: many_sites_def)
  have h3: "map_of [(''studies'', JArr four_studies)] ''studies'' = Some (JArr four_studies)"
    by simp
  have g1: "requests_get (registry_stub many_sites) [] (locations_params (JStr ''depression'') JNull)
              = Inr many_sites"
    by (simp add: registry_stub_def)
  have g2: "snd (get_trial_locations (registry_stub many_sites) [] (JStr ''depression'') JNull)
              = Inr (JObj [(''condition'', JStr ''depression''), (''country'', JStr ''all''),
                           (''number_of_facilities'', JNum 21),
                           (''facilities'', JArr (map site ''abcdefghijklmnopqrst''))])"
    by (simp add: get_trial_locations_def Let_def registry_stub_def
        locations_result_200 [OF h1 h2 h3] collect_four_studies)
  have g3: "requests_get (registry_stub many_sites) []
              (count_trials_params (JStr ''depression'') (JStr ''RECRUITING'')) = Inr many_sites"
    by (simp add: registry_stub_def)
  have g4: "snd (count_trials (registry_stub many_sites) [] (JStr ''depression'')
                   (JStr ''RECRUITING''))
              = Inr (JObj [(''count'', JNum 4), (''condition'', JStr ''depression''),
                           (''status'', JStr ''RECRUITING''),
                           (''sample_titles'', JArr [JStr ''T1'', JStr ''T2'', JStr ''T3''])])"
    by (simp add: count_trials_def Let_def registry_stub_def
        count_trials_result_200 [OF h1 h2 h3] titles_four_studies)
      (simp add: four_studies_def)
  show ?thesis
    using returned_lists_are_capped [OF h1 h2 h3,
        of "registry_stub many_sites" "[]" "JStr ''depression''" JNull _
           "JStr ''RECRUITING''" _] g1 g2 g3 g4
    by blast
qed

text \<open>
  C10. \<open>number_of_facilities\<close> is the length of the deduplicated accumulation before it is
  cut to 20, so it exceeds the length of the returned list as soon as more than 20 distinct
  facilities were accumulated; a response with 21 distinct facilities reports 21 and returns
  20 of them.
\<close>

theorem number_of_facilities_counts_before_truncation:
  "(\<forall>r kvs studies env log c k s.
      status_code r = 200 \<longrightarrow>
      json_body r = Some (JObj kvs) \<longrightarrow>
      map_of kvs ''studies'' = Some (JArr studies) \<longrightarrow>
      requests_get env log (locations_params c k) = Inr r \<longrightarrow>
      snd (get_trial_locations env log c k) = Inr s \<longrightarrow>
        (\<exists>fs. collect_facilities k studies = Inr fs \<and>
              getitem s ''number_of_facilities'' = Inr (JNum (int (length fs))) \<and>
              getitem s ''facilities'' = Inr (JArr (take 20 fs)) \<and>
              (20 < length fs \<longrightarrow> length (take 20 fs) < length fs))) \<and>
   (\<exists>s fs. snd (get_trial_locations (registry_stub many_sites) [] (JStr ''depression'') JNull)
             = Inr s \<and>
           getitem s ''number_of_facilities'' = Inr (JNum 21) \<and>
           getitem s ''facilities'' = Inr (JArr fs) \<and>
           length fs = 20)"
proof (intro conjI allI impI)
  fix r kvs studies env log c k s
  assume a: "status_code r = 200" "json_body r = Some (JObj kvs)"
    "map_of kvs ''studies'' = Some (JArr studies)"
    and "requests_get env log (locations_params c k) = Inr r"
    and "snd (get_trial_locations env log c k) = Inr s"
  then have "locations_result c k r = Inr s"
    by (simp add: get_trial_locations_def Let_def)
  then obtain fs where fs: "collect_facilities k studies = Inr fs"
    and s: "s = JObj [(''condition'', c),
                      (''country'', if truthy k then k else JStr ''all''),
                      (''number_of_facilities'', JNum (int (length fs))),
                      (''facilities'', JArr (take 20 fs))]"
    unfolding locations_result_200 [OF a] bindE_eq_Inr by blast
  from s have "getitem s ''number_of_facilities'' = Inr (JNum (int (length fs)))"
    and "getitem s ''facilities'' = Inr (JArr (take 20 fs))"
    by simp_all
  with fs show "\<exists>fs. collect_facilities k studies = Inr fs \<and>
              getitem s ''number_of_facilities'' = Inr (JNum (int (length fs))) \<and>
              getitem s ''facilities'' = Inr (JArr (take 20 fs)) \<and>
              (20 < length fs \<longrightarrow> length (take 20 fs) < length fs)"
    by simp
next
  have h1: "status_code many_sites = 200"
    by (simp add: many_sites_def)
  have h2: "json_body many_sites = Some (JObj [(''studies'', JArr four_studies)])"
    by (simp add: many_sites_def)
  have h3: "map_of [(''studies'', JArr four_studies)] ''studies'' = Some (JArr four_studies)"
    by simp
  have "snd (get_trial_locations (registry_stub many_sites) [] (JStr ''depression'') JNull)
              = Inr (JObj [(''condition'', JStr ''depression''), (''country'', JStr ''all''),
                           (''number_of_facilities'', JNum 21),
                           (''facilities'', JArr (map site ''abcdefghijklmnopqrst''))])"
    by (simp add: get_trial_locations_def Let_def registry_stub_def
        locations_result_200 [OF h1 h2 h3] collect_four_studies)
  then show "\<exists>s fs. snd (get_trial_locations (registry_stub many_sites) [] (JStr ''depression'') JNull)
             = Inr s \<and>
           getitem s ''number_of_facilities'' = Inr (JNum 21) \<and>
           getitem s ''facilities'' = Inr (JArr fs) \<and>
           length fs = 20"
    by simp
qed

theorem number_of_facilities_counts_before_truncation_witness:
  "\<exists>fs. collect_facilities JNull four_studies = Inr fs \<and>
        getitem (JObj [(''condition'', JStr ''depression''), (''country'', JStr ''all''),
                       (''number_of_facilities'', JNum 21),
                       (''facilities'', JArr (map site ''abcdefghijklmnopqrst''))])
          ''number_of_facilities'' = Inr (JNum (int (length fs))) \<and>
        getitem (JObj [(''condition'', JStr ''depression''), (''country'', JStr ''all''),
                       (''number_of_facilities'', JNum 21),
                       (''facilities'', JArr (map site ''abcdefghijklmnopqrst''))])
          ''facilities'' = Inr (JArr (take 20 fs)) \<and>
        length fs = 21 \<and> length (take 20 fs) < length fs"
proof -
  have h1: "status_code many_sites = 200"
    by (simp add: many_sites_def)
  have h2: "json_body many_sites = Some (JObj [(''studies'', JArr four_studies)])"
    by (simp add: many_sites_def)
  have h3: "map_of [(''studies'', JArr four_studies)] ''studies'' = Some (JArr four_studies)"
    by simp
  have g1: "requests_get (registry_stub many_sites) [] (locations_params (JStr ''depression'') JNull)
              = Inr many_sites"
    by (simp add: registry_stub_def)
  have g2: "snd (get_trial_locations (registry_stub many_sites) [] (JStr ''depression'') JNull)
              = Inr (JObj [(''condition'', JStr ''depression''), (''country'', JStr ''all''),
                           (''number_of_facilities'', JNum 21),
                           (''facilities'', JArr (map site ''abcdefghijklmnopqrst''))])"
    by (simp add: get_trial_locations_def Let_def registry_stub_def
        locations_result_200 [OF h1 h2 h3] collect_four_studies)
  from number_of_facilities_counts_before_truncation h1 h2 h3 g1 g2
  obtain fs where fs: "collect_facilities JNull four_studies = Inr fs"
    and n: "getitem (JObj [(''condition'', JStr ''depression''), (''country'', JStr ''all''),
                       (''number_of_facilities'', JNum 21),
                       (''facilities'', JArr (map site ''abcdefghijklmnopqrst''))])
          ''number_of_facilities'' = Inr (JNum (int (length fs)))"
    and f: "getitem (JObj [(''condition'', JStr ''depression''), (''country'', JStr ''all''),
                       (''number_of_facilities'', JNum 21),
                       (''facilities'', JArr (map site ''abcdefghijklmnopqrst''))])
          ''facilities'' = Inr (JArr (take 20 fs))"
    by blast
  from fs have "fs = map site ''abcdefghijklmnopqrstu''"
    unfolding collect_four_studies by blast
  then have "length fs = 21" by simp
  with fs n f show ?thesis by auto
qed

section \<open>The country filter\<close>

lemma of_char_lower_char:
  "is_upper c \<Longrightarrow> (of_char (lower_char c) :: nat) = of_char c + 32"
  by (auto simp: lower_char_def is_upper_def Let_def)

lemma lower_char_not_upper: "is_upper c \<Longrightarrow> \<not> is_upper (lower_char c)"
proof
  assume u: "is_upper c" and l: "is_upper (lower_char c)"
  from u have "(of_char (lower_char c) :: nat) = of_char c + 32"
    by (rule of_char_lower_char)
  with u l show False
    unfolding is_upper_def Let_def by presburger
qed

lemma lower_char_inj_upper:
  assumes "is_upper x" and "is_upper y" and "lower_char x = lower_char y"
  shows "x = y"
proof -
  have "(of_char (lower_char x) :: nat) = of_char (lower_char y)"
    using assms(3) by simp
  then have "(of_char x :: nat) + 32 = of_char y + 32"
    using assms(1,2) by (simp only: of_char_lower_char)
  then have "(of_char x :: nat) = of_char y" by simp
  then show ?thesis by (rule of_char_eqI)
qed

lemma lower_char_eq_iff: "lower_char x = lower_char y \<longleftrightarrow> same_letter x y"
proof (cases "is_upper x"; cases "is_upper y")
  assume x: "is_upper x" and y: "is_upper y"
  then have "y \<noteq> lower_char x" "x \<noteq> lower_char y"
    using lower_char_not_upper by metis+
  with x y show ?thesis
    unfolding same_letter_def using lower_char_inj_upper by blast
next
  assume x: "is_upper x" and y: "\<not> is_upper y"
  then have "lower_char y = y" "x \<noteq> y" by (auto simp: lower_char_def)
  with x y show ?thesis unfolding same_letter_def by auto
next
  assume x: "\<not> is_upper x" and y: "is_upper y"
  then have "lower_char x = x" "x \<noteq> y" by (auto simp: lower_char_def)
  with x y show ?thesis unfolding same_letter_def by auto
next
  assume x: "\<not> is_upper x" and y: "\<not> is_upper y"
  then have "lower_char x = x" "lower_char y = y" by (auto simp: lower_char_def)
  with x y show ?thesis unfolding same_letter_def by auto
qed

lemma map_lower_eq_iff:
  "map lower_char a = map lower_char b \<longleftrightarrow> equal_ignoring_case a b"
  unfolding equal_ignoring_case_def
proof (induction a arbitrary: b)
  case Nil
  then show ?case by auto
next
  case (Cons x a)
  then show ?case by (cases b) (auto simp: lower_char_eq_iff)
qed

text \<open>
  C8. With a country argument supplied (a non-empty string, which is what \<^verbatim>\<open>if country\<close>
  tests), a location entry whose country is a string passes the filter exactly when that
  country equals the argument up to letter case; a kept entry is then offered to the
  accumulated list, a dropped one leaves the list as it is, and an entry without a country
  is dropped.
\<close>

theorem country_filter_ignores_case:
  assumes "f \<noteq> []"
  shows
    "(map_of kvs ''country'' = Some (JStr c) \<longrightarrow>
        skip_location (JStr f) (JObj kvs) = Inr (\<not> equal_ignoring_case c f) \<and>
        add_location (JStr f) facilities (JObj kvs) =
          Inr (if equal_ignoring_case c f
               then append_new facilities
                      (JObj [(''facility'', case map_of kvs ''facility'' of
                                              None \<Rightarrow> JStr ''N/A'' | Some v \<Rightarrow> v),
                             (''city'', case map_of kvs ''city'' of
                                          None \<Rightarrow> JStr ''N/A'' | Some v \<Rightarrow> v),
                             (''country'', JStr c)])
               else facilities)) \<and>
     (map_of kvs ''country'' = None \<longrightarrow>
        skip_location (JStr f) (JObj kvs) = Inr True \<and>
        add_location (JStr f) facilities (JObj kvs) = Inr facilities)"
proof (intro conjI impI)
  assume c: "map_of kvs ''country'' = Some (JStr c)"
  with assms show s: "skip_location (JStr f) (JObj kvs) = Inr (\<not> equal_ignoring_case c f)"
    by (simp add: skip_location_def map_lower_eq_iff)
  from c show "add_location (JStr f) facilities (JObj kvs) =
          Inr (if equal_ignoring_case c f
               then append_new facilities
                      (JObj [(''facility'', case map_of kvs ''facility'' of
                                              None \<Rightarrow> JStr ''N/A'' | Some v \<Rightarrow> v),
                             (''city'', case map_of kvs ''city'' of
                                          None \<Rightarrow> JStr ''N/A'' | Some v \<Rightarrow> v),
                             (''country'', JStr c)])
               else facilities)"
    unfolding add_location_def s by (simp add: facility_info_def)
next
  assume n: "map_of kvs ''country'' = None"
  with assms show s: "skip_location (JStr f) (JObj kvs) = Inr True"
    by (auto simp: skip_location_def)
  show "add_location (JStr f) facilities (JObj kvs) = Inr facilities"
    unfolding add_location_def s by simp
qed

theorem country_filter_ignores_case_witness:
  "skip_location (JStr ''Spain'')
     (JObj [(''facility'', JStr ''Hospital Clinic''), (''country'', JStr ''spain'')]) = Inr False \<and>
   add_location (JStr ''Spain'') []
     (JObj [(''facility'', JStr ''Hospital Clinic''), (''country'', JStr ''spain'')])
     = Inr [JObj [(''facility'', JStr ''Hospital Clinic''), (''city'', JStr ''N/A''),
                  (''country'', JStr ''spain'')]] \<and>
   skip_location (JStr ''Spain'')
     (JObj [(''facility'', JStr ''Hopital Cochin''), (''country'', JStr ''France'')]) = Inr True \<and>
   add_location (JStr ''Spain'') []
     (JObj [(''facility'', JStr ''Hopital Cochin''), (''country'', JStr ''France'')]) = Inr []"
proof -
  have ne: "''Spain'' \<noteq> []" by simp
  have yes: "equal_ignoring_case ''spain'' ''Spain''" by code_simp
  have no: "\<not> equal_ignoring_case ''France'' ''Spain''" by code_simp
  have k1: "map_of [(''facility'', JStr ''Hospital Clinic''), (''country'', JStr ''spain'')]
              ''country'' = Some (JStr ''spain'')"
    by simp
  have k2: "map_of [(''facility'', JStr ''Hopital Cochin''), (''country'', JStr ''France'')]
              ''country'' = Some (JStr ''France'')"
    by simp
  note a = country_filter_ignores_case [OF ne,
      of "[(''facility'', JStr ''Hospital Clinic''), (''country'', JStr ''spain'')]" "''spain''" "[]",
      THEN conjunct1, rule_format, OF k1]
  note b = country_filter_ignores_case [OF ne,
      of "[(''facility'', JStr ''Hopital Cochin''), (''country'', JStr ''France'')]" "''France''" "[]",
      THEN conjunct1, rule_format, OF k2]
  show ?thesis
    using a b yes no by (simp add: append_new_def)
qed

section \<open>Missing fields\<close>











section \<open>Python equality is an equivalence\<close>

lemma map_of_key: "map_of a k = Some v \<Longrightarrow> k \<in> set (map fst a)"
  by (metis map_of_eq_None_iff option.distinct(1) set_map)

lemma key_map_of: "k \<in> set (map fst a) \<Longrightarrow> \<exists>v. map_of a k = Some v"
  by (metis map_of_eq_None_iff not_Some_eq set_map)

lemma JObj_IH_snd:
  assumes "\<And>p v. p \<in> set a \<Longrightarrow> v \<in> Basic_BNFs.snds p \<Longrightarrow> P v" and "map_of a k = Some v"
  shows "P v"
proof -
  from assms(2) have "(k, v) \<in> set a" by (rule map_of_SomeD)
  moreover have "v \<in> Basic_BNFs.snds (k, v)" by simp
  ultimately show ?thesis by (rule assms(1))
qed

lemma py_eq_JObj: "py_eq (JObj a) (JObj b) = obj_eq py_eq a b"
proof
  assume h: "py_eq (JObj a) (JObj b)"
  then have l1: "list_all (\<lambda>k. k \<in> set (map fst a)) (map fst b)"
    and l2: "list_all (\<lambda>k. case map_of a k of None \<Rightarrow> False
                     | Some v \<Rightarrow> (case map_of b k of None \<Rightarrow> False | Some w \<Rightarrow> py_eq v w)) (map fst a)"
    by simp_all
  have k1: "\<And>k. k \<in> set (map fst b) \<Longrightarrow> k \<in> set (map fst a)"
    using l1 unfolding list_all_iff by blast
  have k2: "\<And>k. k \<in> set (map fst a) \<Longrightarrow> (case map_of a k of None \<Rightarrow> False
                     | Some v \<Rightarrow> (case map_of b k of None \<Rightarrow> False | Some w \<Rightarrow> py_eq v w))"
    using l2 unfolding list_all_iff by blast
  show "obj_eq py_eq a b"
    unfolding obj_eq_def
  proof (intro allI conjI impI)
    fix k
    show "(map_of a k = None) = (map_of b k = None)"
    proof (cases "k \<in> set (map fst a)")
      case True
      from k2[OF True] show ?thesis by (auto split: option.splits)
    next
      case False
      then have "k \<notin> set (map fst b)" using k1 by blast
      with False show ?thesis by (simp add: map_of_eq_None_iff)
    qed
  next
    fix k v w assume a: "map_of a k = Some v" and b: "map_of b k = Some w"
    from a have "k \<in> set (map fst a)" by (rule map_of_key)
    from k2[OF this] a b show "py_eq v w" by simp
  qed
next
  assume h: "obj_eq py_eq a b"
  have "k \<in> set (map fst a)" if "k \<in> set (map fst b)" for k
  proof -
    from key_map_of[OF that] obtain w where "map_of b k = Some w" ..
    then have "map_of a k \<noteq> None" using h unfolding obj_eq_def by (metis option.distinct(1))
    then obtain v where "map_of a k = Some v" by blast
    then show ?thesis by (rule map_of_key)
  qed
  moreover have "(case map_of a k of None \<Rightarrow> False
                     | Some v \<Rightarrow> (case map_of b k of None \<Rightarrow> False | Some w \<Rightarrow> py_eq v w))"
    if "k \<in> set (map fst a)" for k
  proof -
    from key_map_of[OF that] obtain v where v: "map_of a k = Some v" ..
    then have "map_of b k \<noteq> None" using h unfolding obj_eq_def by (metis option.distinct(1))
    then obtain w where w: "map_of b k = Some w" by blast
    with v h have "py_eq v w" unfolding obj_eq_def by blast
    with v w show ?thesis by simp
  qed
  ultimately have "list_all (\<lambda>k. k \<in> set (map fst a)) (map fst b)"
    and "list_all (\<lambda>k. case map_of a k of None \<Rightarrow> False
                     | Some v \<Rightarrow> (case map_of b k of None \<Rightarrow> False | Some w \<Rightarrow> py_eq v w)) (map fst a)"
    unfolding list_all_iff by blast+
  then show "py_eq (JObj a) (JObj b)" by simp
qed

lemma py_eq_refl: "py_eq x x"
proof (induction x)
  case (JArr xs)
  then show ?case by (simp add: list_all2_same)
next
  case (JObj a)
  have "py_eq v v" if "map_of a k = Some v" for k v
    using JObj.IH that by (rule JObj_IH_snd)
  then show ?case unfolding py_eq_JObj obj_eq_def by auto
qed simp_all

lemma py_eq_sym: "py_eq x y \<Longrightarrow> py_eq y x"
proof (induction x arbitrary: y)
  case JNull then show ?case by (cases y) simp_all
next
  case (JBool b) then show ?case by (cases y) simp_all
next
  case (JNum n) then show ?case by (cases y) simp_all
next
  case (JStr s) then show ?case by (cases y) simp_all
next
  case (JArr xs)
  then obtain ys where y: "y = JArr ys" by (cases y) simp_all
  with JArr.prems have l: "list_all2 py_eq xs ys" by simp
  have "list_all2 py_eq ys xs"
    unfolding list_all2_conv_all_nth
  proof (intro conjI allI impI)
    show "length ys = length xs" using l by (simp add: list_all2_lengthD)
  next
    fix i assume "i < length ys"
    then have i: "i < length xs" using l by (simp add: list_all2_lengthD)
    then have "py_eq (xs ! i) (ys ! i)" using l by (simp add: list_all2_conv_all_nth)
    moreover have "xs ! i \<in> set xs" using i by simp
    ultimately show "py_eq (ys ! i) (xs ! i)" using JArr.IH by blast
  qed
  then show ?case using y by simp
next
  case (JObj a)
  then obtain b where y: "y = JObj b" by (cases y) simp_all
  with JObj.prems have h: "obj_eq py_eq a b" by (simp only: py_eq_JObj)
  have ih: "py_eq w v" if "map_of a k = Some v" "py_eq v w" for k v w
  proof -
    from that(1) have "(k, v) \<in> set a" by (rule map_of_SomeD)
    moreover have "v \<in> Basic_BNFs.snds (k, v)" by simp
    ultimately show ?thesis using JObj.IH that(2) by blast
  qed
  have "obj_eq py_eq b a"
    unfolding obj_eq_def
  proof (intro allI conjI impI)
    fix k show "(map_of b k = None) = (map_of a k = None)" using h unfolding obj_eq_def by blast
  next
    fix k v w assume "map_of b k = Some v" "map_of a k = Some w"
    then show "py_eq v w" using h ih unfolding obj_eq_def by blast
  qed
  then show ?case using y by (simp only: py_eq_JObj)
qed

lemma py_eq_trans: "py_eq x y \<Longrightarrow> py_eq y z \<Longrightarrow> py_eq x z"
proof (induction x arbitrary: y z)
  case JNull then show ?case by (cases y; cases z) simp_all
next
  case (JBool b) then show ?case by (cases y; cases z) (simp_all split: if_splits)
next
  case (JNum n) then show ?case by (cases y; cases z) (simp_all split: if_splits)
next
  case (JStr s) then show ?case by (cases y; cases z) simp_all
next
  case (JArr xs)
  from JArr.prems(1) obtain ys where y: "y = JArr ys" by (cases y) simp_all
  from JArr.prems(2) y obtain zs where z: "z = JArr zs" by (cases z) simp_all
  from JArr.prems y z have l: "list_all2 py_eq xs ys" "list_all2 py_eq ys zs" by simp_all
  have "list_all2 py_eq xs zs"
    unfolding list_all2_conv_all_nth
  proof (intro conjI allI impI)
    show "length xs = length zs" using l by (simp add: list_all2_lengthD)
  next
    fix i assume i: "i < length xs"
    then have "i < length ys" using l by (simp add: list_all2_lengthD)
    then have "py_eq (xs ! i) (ys ! i)" "py_eq (ys ! i) (zs ! i)"
      using l i by (simp_all add: list_all2_conv_all_nth)
    moreover have "xs ! i \<in> set xs" using i by simp
    ultimately show "py_eq (xs ! i) (zs ! i)" using JArr.IH by blast
  qed
  then show ?case using y z by simp
next
  case (JObj a)
  from JObj.prems(1) obtain b where y: "y = JObj b" by (cases y) simp_all
  from JObj.prems(2) y obtain c where z: "z = JObj c" by (cases z) simp_all
  from JObj.prems y z have h: "obj_eq py_eq a b" "obj_eq py_eq b c"
    by (simp_all only: py_eq_JObj)
  have ih: "py_eq u w" if "map_of a k = Some u" "py_eq u v" "py_eq v w" for k u v w
  proof -
    from that(1) have "(k, u) \<in> set a" by (rule map_of_SomeD)
    moreover have "u \<in> Basic_BNFs.snds (k, u)" by simp
    ultimately show ?thesis using JObj.IH that(2,3) by blast
  qed
  have "obj_eq py_eq a c"
    unfolding obj_eq_def
  proof (intro allI conjI impI)
    fix k show "(map_of a k = None) = (map_of c k = None)" using h unfolding obj_eq_def by blast
  next
    fix k u w assume uw: "map_of a k = Some u" "map_of c k = Some w"
    have "map_of b k \<noteq> None" using h(1) uw(1) unfolding obj_eq_def by (metis option.distinct(1))
    then obtain v where v: "map_of b k = Some v" by blast
    have "py_eq u v" using h(1) uw(1) v unfolding obj_eq_def by blast
    moreover have "py_eq v w" using h(2) uw(2) v unfolding obj_eq_def by blast
    ultimately show "py_eq u w" using ih uw(1) by blast
  qed
  then show ?case using y z by (simp only: py_eq_JObj)
qed

section \<open>Facility deduplication\<close>

lemma foldE_add_location:
  "foldE (add_location k) acc locs =
     bindE (scan_locations k locs) (\<lambda>xs. Inr (foldl append_new acc xs))"
proof (induction locs arbitrary: acc)
  case Nil
  show ?case by simp
next
  case (Cons loc locs)
  show ?case
  proof (cases "skip_location k loc")
    case (Inl e)
    then show ?thesis by (simp add: add_location_def)
  next
    case skip: (Inr b)
    show ?thesis
    proof (cases b)
      case True
      with skip Cons.IH show ?thesis by (simp add: add_location_def)
    next
      case False
      show ?thesis
      proof (cases "facility_info loc")
        case (Inl e)
        with skip False show ?thesis by (simp add: add_location_def)
      next
        case (Inr info)
        with skip False Cons.IH [of "append_new acc info"] show ?thesis
          by (cases "scan_locations k locs") (simp_all add: add_location_def)
      qed
    qed
  qed
qed

lemma add_study_scan:
  "add_study k acc study =
     bindE (scan_study k study) (\<lambda>xs. Inr (foldl append_new acc xs))"
proof (cases "getitem study ''protocolSection''")
  case (Inl e)
  then show ?thesis by (simp add: add_study_def scan_study_def)
next
  case p: (Inr protocol)
  show ?thesis
  proof (cases "py_in ''contactsLocationsModule'' protocol")
    case (Inl e)
    with p show ?thesis by (simp add: add_study_def scan_study_def)
  next
    case has: (Inr b)
    show ?thesis
    proof (cases b)
      case False
      with p has show ?thesis by (simp add: add_study_def scan_study_def)
    next
      case True
      show ?thesis
      proof (cases "getitem protocol ''contactsLocationsModule''")
        case (Inl e)
        with p has True show ?thesis by (simp add: add_study_def scan_study_def)
      next
        case m: (Inr m)
        show ?thesis
        proof (cases "dict_get m ''locations'' (JArr [])")
          case (Inl e)
          with p has True m show ?thesis by (simp add: add_study_def scan_study_def)
        next
          case l: (Inr locations)
          show ?thesis
          proof (cases "py_iter locations")
            case (Inl e)
            with p has True m l show ?thesis by (simp add: add_study_def scan_study_def)
          next
            case (Inr locs)
            with p has True m l show ?thesis
              by (simp add: add_study_def scan_study_def foldE_add_location)
          qed
        qed
      qed
    qed
  qed
qed

lemma foldE_add_study:
  "foldE (add_study k) acc studies =
     bindE (scan_studies k studies) (\<lambda>xs. Inr (foldl append_new acc xs))"
proof (induction studies arbitrary: acc)
  case Nil
  show ?case by simp
next
  case (Cons study studies)
  show ?case
  proof (cases "scan_study k study")
    case (Inl e)
    then show ?thesis by (simp add: add_study_scan)
  next
    case (Inr xs)
    with Cons.IH [of "foldl append_new acc xs"] show ?thesis
      by (cases "scan_studies k studies") (simp_all add: add_study_scan)
  qed
qed

lemma seen_snoc: "seen (acc @ [x]) y \<longleftrightarrow> seen acc y \<or> py_eq x y"
  by (auto simp: seen_def list_ex_iff)

lemma foldl_append_new:
  "foldl append_new acc xs = acc @ first_seen (filter (\<lambda>x. \<not> seen acc x) xs)"
proof (induction xs arbitrary: acc)
  case Nil
  show ?case by simp
next
  case (Cons x xs)
  show ?case
  proof (cases "seen acc x")
    case True
    then have "append_new acc x = acc" by (simp add: append_new_def seen_def)
    with True Cons.IH [of acc] show ?thesis by simp
  next
    case False
    then have a: "append_new acc x = acc @ [x]" by (simp add: append_new_def seen_def)
    have "filter (\<lambda>y. \<not> seen (acc @ [x]) y) xs =
          filter (\<lambda>y. \<not> py_eq x y) (filter (\<lambda>y. \<not> seen acc y) xs)"
      by (auto simp: seen_snoc intro: filter_cong)
    with False a Cons.IH [of "acc @ [x]"] show ?thesis by simp
  qed
qed

lemma collect_facilities_first_seen:
  "collect_facilities k studies = bindE (scan_studies k studies) (\<lambda>xs. Inr (first_seen xs))"
  by (simp add: collect_facilities_def foldE_add_study foldl_append_new seen_def)

lemma set_first_seen: "set (first_seen xs) \<subseteq> set xs"
  by (induction xs rule: first_seen.induct) auto

lemma subseq_first_seen: "subseq (first_seen xs) xs"
proof (induction xs rule: first_seen.induct)
  case 1
  show ?case by simp
next
  case (2 x xs)
  have "subseq (filter (\<lambda>y. \<not> py_eq x y) xs) xs" by simp
  with 2 have "subseq (first_seen (filter (\<lambda>y. \<not> py_eq x y) xs)) xs"
    by (rule subseq_order.trans)
  then show ?case by simp
qed

lemma first_seen_once:
  "x \<in> set xs \<Longrightarrow> length (filter (\<lambda>e. py_eq e x) (first_seen xs)) = 1"
proof (induction xs rule: first_seen.induct)
  case 1
  then show ?case by simp
next
  case (2 x0 xs)
  let ?rest = "filter (\<lambda>y. \<not> py_eq x0 y) xs"
  show ?case
  proof (cases "py_eq x0 x")
    case True
    have "\<not> py_eq e x" if "e \<in> set (first_seen ?rest)" for e
    proof
      assume "py_eq e x"
      then have "py_eq x e" by (rule py_eq_sym)
      with True have "py_eq x0 e" by (rule py_eq_trans)
      moreover from that have "e \<in> set ?rest" using set_first_seen by blast
      ultimately show False by simp
    qed
    then have "filter (\<lambda>e. py_eq e x) (first_seen ?rest) = []"
      by (simp add: filter_empty_conv)
    with True show ?thesis by simp
  next
    case False
    then have "x \<noteq> x0" using py_eq_refl by blast
    with "2.prems" False have "x \<in> set ?rest" by simp
    then have "length (filter (\<lambda>e. py_eq e x) (first_seen ?rest)) = 1" by (rule "2.IH")
    with False show ?thesis by simp
  qed
qed

lemma facility_info_shaped: "facility_info loc = Inr info \<Longrightarrow> facility_shaped info"
  by (auto simp: facility_info_def facility_shaped_def bindE_eq_Inr)

lemma scan_locations_shaped:
  "scan_locations k locs = Inr xs \<Longrightarrow> x \<in> set xs \<Longrightarrow> facility_shaped x"
proof (induction locs arbitrary: xs)
  case Nil
  then show ?case by simp
next
  case (Cons loc locs)
  then show ?case
    by (auto split: sum.splits if_splits dest: facility_info_shaped)
qed

lemma scan_study_shaped:
  "scan_study k study = Inr xs \<Longrightarrow> x \<in> set xs \<Longrightarrow> facility_shaped x"
  by (auto simp: scan_study_def bindE_eq_Inr split: if_splits dest: scan_locations_shaped)

lemma scan_studies_shaped:
  "scan_studies k studies = Inr xs \<Longrightarrow> x \<in> set xs \<Longrightarrow> facility_shaped x"
proof (induction studies arbitrary: xs)
  case Nil
  then show ?case by simp
next
  case (Cons study studies)
  then show ?case
    by (auto split: sum.splits dest: scan_study_shaped)
qed

lemma py_eq_JStr: "py_eq v (JStr a) \<longleftrightarrow> v = JStr a"
  by (cases v) simp_all

lemma py_eq_string_triple:
  "facility_shaped e \<Longrightarrow>
   py_eq e (JObj [(''facility'', JStr a), (''city'', JStr b), (''country'', JStr d)]) \<longleftrightarrow>
   e = JObj [(''facility'', JStr a), (''city'', JStr b), (''country'', JStr d)]"
  by (auto simp: facility_shaped_def py_eq_JStr)

text \<open>
  C5. On a 200 response, the list accumulated by \<open>get_trial_locations\<close> (of which the
  first 20 entries are returned) is the list of distinct facility dictionaries of the scan
  over the studies and their locations, in first-seen order: it is a subsequence of the
  scan, every scanned dictionary has exactly one entry equal to it (Python \<^verbatim>\<open>==\<close>), and a
  (facility, city, country) triple of strings that occurs in the scan, however often,
  occurs in the accumulated list exactly once.
\<close>

theorem facilities_deduplicated_in_first_seen_order:
  assumes "status_code r = 200"
    and "json_body r = Some (JObj kvs)"
    and "map_of kvs ''studies'' = Some (JArr studies)"
    and "requests_get env log (locations_params c k) = Inr r"
    and "snd (get_trial_locations env log c k) = Inr s"
  shows "\<exists>scan fs.
           scan_studies k studies = Inr scan \<and>
           collect_facilities k studies = Inr fs \<and>
           getitem s ''facilities'' = Inr (JArr (take 20 fs)) \<and>
           fs = first_seen scan \<and>
           subseq fs scan \<and>
           (\<forall>x\<in>set scan. length (filter (\<lambda>e. py_eq e x) fs) = 1) \<and>
           (\<forall>a b d. JObj [(''facility'', JStr a), (''city'', JStr b), (''country'', JStr d)]
                       \<in> set scan \<longrightarrow>
                    count_list fs (JObj [(''facility'', JStr a), (''city'', JStr b),
                                         (''country'', JStr d)]) = 1)"
proof -
  from assms(4,5) have "locations_result c k r = Inr s"
    by (simp add: get_trial_locations_def Let_def)
  then obtain fs where fs: "collect_facilities k studies = Inr fs"
    and s: "s = JObj [(''condition'', c),
                      (''country'', if truthy k then k else JStr ''all''),
                      (''number_of_facilities'', JNum (int (length fs))),
                      (''facilities'', JArr (take 20 fs))]"
    unfolding locations_result_200 [OF assms(1-3)] bindE_eq_Inr by blast
  from fs obtain scan where scan: "scan_studies k studies = Inr scan"
    and eq: "fs = first_seen scan"
    unfolding collect_facilities_first_seen bindE_eq_Inr by blast
  have once: "length (filter (\<lambda>e. py_eq e x) fs) = 1" if "x \<in> set scan" for x
    using that unfolding eq by (rule first_seen_once)
  have strings: "count_list fs (JObj [(''facility'', JStr a), (''city'', JStr b),
                                      (''country'', JStr d)]) = 1"
    if "JObj [(''facility'', JStr a), (''city'', JStr b), (''country'', JStr d)] \<in> set scan"
    for a b d
  proof -
    let ?x = "JObj [(''facility'', JStr a), (''city'', JStr b), (''country'', JStr d)]"
    have "facility_shaped e" if "e \<in> set fs" for e
    proof -
      from that have "e \<in> set scan" unfolding eq using set_first_seen by blast
      with scan show ?thesis by (rule scan_studies_shaped)
    qed
    then have "filter (\<lambda>e. py_eq e ?x) fs = filter (\<lambda>e. ?x = e) fs"
      by (intro filter_cong refl) (auto simp only: py_eq_string_triple)
    then have "count_list fs ?x = length (filter (\<lambda>e. py_eq e ?x) fs)"
      by (simp add: count_list_eq_length_filter)
    with once [OF that] show ?thesis by simp
  qed
  from s have "getitem s ''facilities'' = Inr (JArr (take 20 fs))" by simp
  moreover have "subseq fs scan" unfolding eq by (rule subseq_first_seen)
  ultimately show ?thesis
    using scan fs eq once strings by blast
qed

lemma scan_four_studies:
  "scan_studies JNull four_studies =
     Inr (map site ''abcdefghijk'' @ map site ''lmnopqrstu'' @ map site ''abc'')"
  by code_simp

theorem facilities_deduplicated_in_first_seen_order_witness:
  "\<exists>scan fs.
     scan_studies JNull four_studies = Inr scan \<and>
     collect_facilities JNull four_studies = Inr fs \<and>
     fs = first_seen scan \<and>
     subseq fs scan \<and>
     count_list scan (site CHR ''a'') = 2 \<and>
     length (filter (\<lambda>e. py_eq e (site CHR ''a'')) fs) = 1 \<and>
     count_list fs (site CHR ''a'') = 1 \<and>
     fs = map site ''abcdefghijklmnopqrstu''"
proof -
  have h1: "status_code many_sites = 200"
    by (simp add: many_sites_def)
  have h2: "json_body many_sites = Some (JObj [(''studies'', JArr four_studies)])"
    by (simp add: many_sites_def)
  have h3: "map_of [(''studies'', JArr four_studies)] ''studies'' = Some (JArr four_studies)"
    by simp
  have g1: "requests_get (registry_stub many_sites) [] (locations_params (JStr ''depression'') JNull)
              = Inr many_sites"
    by (simp add: registry_stub_def)
  have g2: "snd (get_trial_locations (registry_stub many_sites) [] (JStr ''depression'') JNull)
              = Inr (JObj [(''condition'', JStr ''depression''), (''country'', JStr ''all''),
                           (''number_of_facilities'', JNum 21),
                           (''facilities'', JArr (map site ''abcdefghijklmnopqrst''))])"
    by (simp add: get_trial_locations_def Let_def registry_stub_def
        locations_result_200 [OF h1 h2 h3] collect_four_studies)
  from facilities_deduplicated_in_first_seen_order [OF h1 h2 h3 g1 g2]
  obtain scan fs where scan: "scan_studies JNull four_studies = Inr scan"
    and fs: "collect_facilities JNull four_studies = Inr fs"
    and eq: "fs = first_seen scan"
    and sub: "subseq fs scan"
    and once: "\<forall>x\<in>set scan. length (filter (\<lambda>e. py_eq e x) fs) = 1"
    and strings: "\<forall>a b d. JObj [(''facility'', JStr a), (''city'', JStr b), (''country'', JStr d)]
                       \<in> set scan \<longrightarrow>
                    count_list fs (JObj [(''facility'', JStr a), (''city'', JStr b),
                                         (''country'', JStr d)]) = 1"
    by blast
  from scan have scan_eq:
    "scan = map site ''abcdefghijk'' @ map site ''lmnopqrstu'' @ map site ''abc''"
    unfolding scan_four_studies by blast
  from fs have fs_eq: "fs = map site ''abcdefghijklmnopqrstu''"
    unfolding collect_four_studies by blast
  have mem: "site CHR ''a'' \<in> set scan"
    unfolding scan_eq by simp
  have twice: "count_list scan (site CHR ''a'') = 2"
    unfolding scan_eq by (simp add: site_def)
  from once mem have o: "length (filter (\<lambda>e. py_eq e (site CHR ''a'')) fs) = 1"
    by blast
  from strings mem have c: "count_list fs (site CHR ''a'') = 1"
    unfolding site_def by blast
  from scan fs eq sub twice o c fs_eq show ?thesis
    by blast
qed

section \<open>Tool execution\<close>

lemma registry_call_appends_request:
  assumes "available_functions name = Some f" and "f env log args = (log', Inr r)"
  shows "\<exists>p. log' = log @ [HttpGet p]"
proof -
  from assms(1) consider "f = call_count_trials" | "f = call_get_eligibility_criteria"
    | "f = call_get_trial_locations" | "f = call_get_trial_phases"
    by (auto simp: available_functions_def split: if_splits)
  then show ?thesis
  proof cases
    case 1
    with assms(2) show ?thesis
      by (auto simp: call_count_trials_def count_trials_def Let_def split: sum.splits)
  next
    case 2
    with assms(2) show ?thesis
      by (auto simp: call_get_eligibility_criteria_def get_eligibility_criteria_def Let_def
          split: sum.splits)
  next
    case 3
    with assms(2) show ?thesis
      by (auto simp: call_get_trial_locations_def get_trial_locations_def Let_def
          split: sum.splits)
  next
    case 4
    with assms(2) show ?thesis
      by (auto simp: call_get_trial_phases_def get_trial_phases_def Let_def split: sum.splits)
  qed
qed

lemma exec_tool_call_Inr:
  "exec_tool_call env log msgs tc = (log', Inr msgs') \<longleftrightarrow>
     (\<exists>p r. call_matches env log tc p r \<and> log' = log @ [HttpGet p] \<and>
            msgs' = msgs @ [ToolMsg (call_id tc) (fn_name tc) (json_dumps env r)])"
proof (cases "json_loads env (fn_arguments tc)")
  case None
  then show ?thesis by (simp add: exec_tool_call_def call_matches_def)
next
  case args: (Some args)
  show ?thesis
  proof (cases "available_functions (fn_name tc)")
    case None
    with args show ?thesis by (simp add: exec_tool_call_def call_matches_def)
  next
    case f: (Some f)
    obtain l x where fx: "f env log args = (l, x)" by (cases "f env log args")
    show ?thesis
    proof (cases x)
      case (Inl e)
      with args f fx show ?thesis by (simp add: exec_tool_call_def call_matches_def)
    next
      case (Inr r)
      with f fx obtain p where p: "l = log @ [HttpGet p]"
        using registry_call_appends_request by blast
      with args f fx Inr show ?thesis
        by (auto simp: exec_tool_call_def call_matches_def)
    qed
  qed
qed

lemma exec_tool_calls_Inr:
  "exec_tool_calls env log msgs tcs = (log', Inr msgs') \<longleftrightarrow>
     (\<exists>ps rs. calls_match env log tcs ps rs \<and> log' = log @ map HttpGet ps \<and>
             msgs' = msgs @ tool_messages env tcs rs)"
proof (induction tcs arbitrary: log msgs)
  case Nil
  have "calls_match env log [] ps rs \<longleftrightarrow> ps = [] \<and> rs = []" for ps rs
    by (cases ps; cases rs) simp_all
  then show ?case by (auto simp: tool_messages_def)
next
  case (Cons tc tcs)
  obtain l x where step: "exec_tool_call env log msgs tc = (l, x)"
    by (cases "exec_tool_call env log msgs tc")
  have split: "calls_match env log (tc # tcs) ps rs \<longleftrightarrow>
      (\<exists>p ps' r rs'. ps = p # ps' \<and> rs = r # rs' \<and> call_matches env log tc p r \<and>
          calls_match env (log @ [HttpGet p]) tcs ps' rs')" for ps rs
    by (cases ps; cases rs) simp_all
  show ?case
  proof
    assume run: "exec_tool_calls env log msgs (tc # tcs) = (log', Inr msgs')"
    with step obtain m1 where x: "x = Inr m1"
      and rest: "exec_tool_calls env l m1 tcs = (log', Inr msgs')"
      by (cases x) simp_all
    from step x have "exec_tool_call env log msgs tc = (l, Inr m1)" by simp
    then obtain p r where cm: "call_matches env log tc p r"
      and l: "l = log @ [HttpGet p]"
      and m1: "m1 = msgs @ [ToolMsg (call_id tc) (fn_name tc) (json_dumps env r)]"
      unfolding exec_tool_call_Inr by blast
    from rest obtain ps rs where cms: "calls_match env l tcs ps rs"
      and log': "log' = l @ map HttpGet ps"
      and msgs': "msgs' = m1 @ tool_messages env tcs rs"
      unfolding Cons.IH by blast
    have "calls_match env log (tc # tcs) (p # ps) (r # rs)"
      using cm cms l by simp
    moreover have "log' = log @ map HttpGet (p # ps)"
      using log' l by simp
    moreover have "msgs' = msgs @ tool_messages env (tc # tcs) (r # rs)"
      using msgs' m1 by (simp add: tool_messages_def)
    ultimately show "\<exists>ps rs. calls_match env log (tc # tcs) ps rs \<and>
        log' = log @ map HttpGet ps \<and> msgs' = msgs @ tool_messages env (tc # tcs) rs"
      by blast
  next
    assume "\<exists>ps rs. calls_match env log (tc # tcs) ps rs \<and>
        log' = log @ map HttpGet ps \<and> msgs' = msgs @ tool_messages env (tc # tcs) rs"
    then obtain p ps r rs where cm: "call_matches env log tc p r"
      and cms: "calls_match env (log @ [HttpGet p]) tcs ps rs"
      and log': "log' = log @ map HttpGet (p # ps)"
      and msgs': "msgs' = msgs @ tool_messages env (tc # tcs) (r # rs)"
      unfolding split by blast
    from cm have one: "exec_tool_call env log msgs tc =
        (log @ [HttpGet p], Inr (msgs @ [ToolMsg (call_id tc) (fn_name tc) (json_dumps env r)]))"
      unfolding exec_tool_call_Inr by blast
    have "exec_tool_calls env (log @ [HttpGet p])
            (msgs @ [ToolMsg (call_id tc) (fn_name tc) (json_dumps env r)]) tcs =
          (log', Inr msgs')"
      unfolding Cons.IH using cms log' msgs' by (auto simp: tool_messages_def)
    with one show "exec_tool_calls env log msgs (tc # tcs) = (log', Inr msgs')"
      by simp
  qed
qed

lemma calls_match_length:
  "calls_match env log tcs ps rs \<Longrightarrow> length ps = length tcs \<and> length rs = length tcs"
  by (induction env log tcs ps rs rule: calls_match.induct) simp_all

lemma loads_stub_simps:
  "loads_stub diabetes_args = Some (JObj [(''condition'', JStr ''diabetes'')])"
  "loads_stub asthma_args =
     Some (JObj [(''condition'', JStr ''asthma''), (''phase'', JStr ''PHASE3'')])"
  "loads_stub ''{}'' = Some (JObj [])"
  by (simp_all add: loads_stub_def diabetes_args_def asthma_args_def quoted_def)

text \<open>
  C2, as stated (every first response with N \<ge> 1 invocations leads to exactly N Registry
  Client calls, one tool-result message each, one more completion call and its text as the
  answer), fails: when the second of two invocations names a function that is not in
  \<open>available_functions\<close>, the lookup raises KeyError after one registry call, and there is no
  second completion call and no answer.
\<close>

theorem unknown_tool_stops_the_loop:
  "run_agent (agent_stub [call_1, call_unknown]) ''Diabetes trials and their sponsors?''
     ''llama-3.3-70b-versatile'' =
     ([ChatCreate (first_request ''Diabetes trials and their sponsors?''
                     ''llama-3.3-70b-versatile''),
       HttpGet (count_trials_params (JStr ''diabetes'') (JStr ''RECRUITING''))],
      Inl (KeyError ''get_trial_sponsors''))"
  by (simp add: run_agent_def agent_stub_def Let_def exec_tool_call_def call_1_def
      call_unknown_def loads_stub_simps available_functions_def call_count_trials_def
      bind_kwargs_def kwarg_def count_trials_def count_trials_result_def response_json_def)

text \<open>
  C2, amended. For a first response carrying N \<ge> 1 tool invocations, \<open>run_agent\<close> returns an
  answer exactly when every invocation, taken in the order returned, has arguments that
  parse, names a function of \<open>available_functions\<close> and has its call return a result, and
  the final completion call returns. In that case exactly N Registry Client calls were made,
  one per invocation in that order, each followed by one tool-result message tagged with the
  invocation's identifier; then exactly one more completion call was made on the Conversation
  holding all the results, and its text is the answer. (An invocation that does not parse or
  resolve, or a call that raises, ends \<open>run_agent\<close> with that exception.)
\<close>

theorem tool_calls_run_in_order_then_final_answer:
  assumes "chat_create env [] (first_request q model) = Inr m"
    and "tool_calls m = Some tcs"
    and "tcs \<noteq> []"
  shows "run_agent env q model = (log, Inr answer) \<longleftrightarrow>
     (\<exists>ps rs fm.
        calls_match env [ChatCreate (first_request q model)] tcs ps rs \<and>
        length ps = length tcs \<and> length rs = length tcs \<and>
        log = ChatCreate (first_request q model) # map HttpGet ps @
              [ChatCreate (final_request model
                 ([SystemMsg system_prompt, UserMsg q, AssistantMsg m] @
                  tool_messages env tcs rs))] \<and>
        chat_create env (ChatCreate (first_request q model) # map HttpGet ps)
          (final_request model
             ([SystemMsg system_prompt, UserMsg q, AssistantMsg m] @ tool_messages env tcs rs))
          = Inr fm \<and>
        answer = content fm)"
proof -
  let ?log1 = "[ChatCreate (first_request q model)]"
  let ?msgs = "[SystemMsg system_prompt, UserMsg q, AssistantMsg m]"
  from assms(3) obtain tc tcs' where tcs: "tcs = tc # tcs'" by (cases tcs) auto
  obtain l x where loop: "exec_tool_calls env ?log1 ?msgs tcs = (l, x)"
    by (cases "exec_tool_calls env ?log1 ?msgs tcs")
  have run: "run_agent env q model =
      (case x of
         Inl e \<Rightarrow> (l, Inl e)
       | Inr msgs' \<Rightarrow>
           (l @ [ChatCreate (final_request model msgs')],
            case chat_create env l (final_request model msgs') of
              Inl e \<Rightarrow> Inl e
            | Inr fm \<Rightarrow> Inr (content fm)))"
    using assms(1,2) loop unfolding tcs
    by (simp add: run_agent_def Let_def split: sum.splits)
  show ?thesis
  proof
    assume ok: "run_agent env q model = (log, Inr answer)"
    with run obtain msgs' where x: "x = Inr msgs'" by (cases x) simp_all
    with run ok have log: "log = l @ [ChatCreate (final_request model msgs')]"
      and fin: "(case chat_create env l (final_request model msgs') of
                   Inl e \<Rightarrow> Inl e | Inr fm \<Rightarrow> Inr (content fm)) = Inr answer"
      by simp_all
    from fin obtain fm where fm: "chat_create env l (final_request model msgs') = Inr fm"
      and answer: "answer = content fm"
      by (cases "chat_create env l (final_request model msgs')") auto
    from loop x have "exec_tool_calls env ?log1 ?msgs tcs = (l, Inr msgs')" by simp
    then obtain ps rs where cm: "calls_match env ?log1 tcs ps rs"
      and l: "l = ?log1 @ map HttpGet ps"
      and msgs': "msgs' = ?msgs @ tool_messages env tcs rs"
      unfolding exec_tool_calls_Inr by blast
    from cm have "length ps = length tcs \<and> length rs = length tcs"
      by (rule calls_match_length)
    with cm l msgs' log fm answer show "\<exists>ps rs fm.
        calls_match env [ChatCreate (first_request q model)] tcs ps rs \<and>
        length ps = length tcs \<and> length rs = length tcs \<and>
        log = ChatCreate (first_request q model) # map HttpGet ps @
              [ChatCreate (final_request model
                 ([SystemMsg system_prompt, UserMsg q, AssistantMsg m] @
                  tool_messages env tcs rs))] \<and>
        chat_create env (ChatCreate (first_request q model) # map HttpGet ps)
          (final_request model
             ([SystemMsg system_prompt, UserMsg q, AssistantMsg m] @ tool_messages env tcs rs))
          = Inr fm \<and>
        answer = content fm"
      by auto
  next
    assume "\<exists>ps rs fm.
        calls_match env [ChatCreate (first_request q model)] tcs ps rs \<and>
        length ps = length tcs \<and> length rs = length tcs \<and>
        log = ChatCreate (first_request q model) # map HttpGet ps @
              [ChatCreate (final_request model
                 ([SystemMsg system_prompt, UserMsg q, AssistantMsg m] @
                  tool_messages env tcs rs))] \<and>
        chat_create env (ChatCreate (first_request q model) # map HttpGet ps)
          (final_request model
             ([SystemMsg system_prompt, UserMsg q, AssistantMsg m] @ tool_messages env tcs rs))
          = Inr fm \<and>
        answer = content fm"
    then obtain ps rs fm where cm: "calls_match env ?log1 tcs ps rs"
      and log: "log = ?log1 @ map HttpGet ps @
              [ChatCreate (final_request model (?msgs @ tool_messages env tcs rs))]"
      and fm: "chat_create env (?log1 @ map HttpGet ps)
                 (final_request model (?msgs @ tool_messages env tcs rs)) = Inr fm"
      and answer: "answer = content fm"
      by auto
    from cm have "exec_tool_calls env ?log1 ?msgs tcs =
        (?log1 @ map HttpGet ps, Inr (?msgs @ tool_messages env tcs rs))"
      unfolding exec_tool_calls_Inr by blast
    with loop have "l = ?log1 @ map HttpGet ps" "x = Inr (?msgs @ tool_messages env tcs rs)"
      by simp_all
    with run log fm answer show "run_agent env q model = (log, Inr answer)"
      by simp
  qed
qed

theorem tool_calls_run_in_order_then_final_answer_witness:
  "\<exists>ps rs fm.
     calls_match (agent_stub [call_1, call_2])
       [ChatCreate (first_request ''Diabetes and asthma trials?'' ''llama-3.3-70b-versatile'')]
       [call_1, call_2] ps rs \<and>
     length ps = length [call_1, call_2] \<and> length rs = length [call_1, call_2] \<and>
     [ChatCreate (first_request ''Diabetes and asthma trials?'' ''llama-3.3-70b-versatile''),
      HttpGet (count_trials_params (JStr ''diabetes'') (JStr ''RECRUITING'')),
      HttpGet (phases_params (JStr ''asthma'') (JStr ''PHASE3'')),
      ChatCreate (final_request ''llama-3.3-70b-versatile''
        [SystemMsg system_prompt, UserMsg ''Diabetes and asthma trials?'',
         AssistantMsg \<lparr>content = None, tool_calls = Some [call_1, call_2]\<rparr>,
         ToolMsg ''call_1'' ''count_trials'' ''count 0'',
         ToolMsg ''call_2'' ''get_trial_phases'' ''count 0''])]
       = ChatCreate (first_request ''Diabetes and asthma trials?'' ''llama-3.3-70b-versatile'') #
         map HttpGet ps @
         [ChatCreate (final_request ''llama-3.3-70b-versatile''
            ([SystemMsg system_prompt, UserMsg ''Diabetes and asthma trials?'',
              AssistantMsg \<lparr>content = None, tool_calls = Some [call_1, call_2]\<rparr>] @
             tool_messages (agent_stub [call_1, call_2]) [call_1, call_2] rs))] \<and>
     chat_create (agent_stub [call_1, call_2])
       (ChatCreate (first_request ''Diabetes and asthma trials?'' ''llama-3.3-70b-versatile'') #
        map HttpGet ps)
       (final_request ''llama-3.3-70b-versatile''
          ([SystemMsg system_prompt, UserMsg ''Diabetes and asthma trials?'',
            AssistantMsg \<lparr>content = None, tool_calls = Some [call_1, call_2]\<rparr>] @
           tool_messages (agent_stub [call_1, call_2]) [call_1, call_2] rs))
       = Inr fm \<and>
     Some ''No trials were found.'' = content fm"
proof -
  have h1: "chat_create (agent_stub [call_1, call_2]) []
              (first_request ''Diabetes and asthma trials?'' ''llama-3.3-70b-versatile'')
            = Inr \<lparr>content = None, tool_calls = Some [call_1, call_2]\<rparr>"
    by (simp add: agent_stub_def)
  have h2: "tool_calls \<lparr>content = None, tool_calls = Some [call_1, call_2]\<rparr>
            = Some [call_1, call_2]"
    by simp
  have h3: "[call_1, call_2] \<noteq> []"
    by simp
  have zero: "show_int 0 = ''0''"
    by (simp add: show_int_def show_nat.simps digit_def)
  have run: "run_agent (agent_stub [call_1, call_2]) ''Diabetes and asthma trials?''
               ''llama-3.3-70b-versatile'' =
     ([ChatCreate (first_request ''Diabetes and asthma trials?'' ''llama-3.3-70b-versatile''),
       HttpGet (count_trials_params (JStr ''diabetes'') (JStr ''RECRUITING'')),
       HttpGet (phases_params (JStr ''asthma'') (JStr ''PHASE3'')),
       ChatCreate (final_request ''llama-3.3-70b-versatile''
         [SystemMsg system_prompt, UserMsg ''Diabetes and asthma trials?'',
          AssistantMsg \<lparr>content = None, tool_calls = Some [call_1, call_2]\<rparr>,
          ToolMsg ''call_1'' ''count_trials'' ''count 0'',
          ToolMsg ''call_2'' ''get_trial_phases'' ''count 0''])],
      Inr (Some ''No trials were found.''))"
    by (simp add: run_agent_def agent_stub_def Let_def exec_tool_call_def call_1_def
        call_2_def loads_stub_simps available_functions_def call_count_trials_def
        call_get_trial_phases_def bind_kwargs_def kwarg_def count_trials_def
        count_trials_result_def get_trial_phases_def phases_result_def response_json_def
        dumps_stub_def zero)
  show ?thesis
    by (rule tool_calls_run_in_order_then_final_answer [THEN iffD1, OF h1 h2 h3 run])
qed

end
